theory Spec2Isabelle
  imports Main "HOL-Library.Word"
begin

section \<open>Data model (nixy.go, marathon.go)\<close>

text \<open>
  The structs of the program. \<open>Frontend\<close> and \<open>App\<close> are the routable model kept in
  \<open>config.Apps\<close>; \<open>Task\<close> and \<open>MarathonApp\<close> are the element types of the decoded
  \<open>MarathonTasks.Tasks\<close> and \<open>MarathonApps.Apps\<close> slices. A Go \<open>map[string]T\<close> is a
  partial function from strings, an \<open>int64\<close> is a 64-bit word read as a signed value.
  The elements of \<open>HealthChecks\<close> are \<open>interface{}\<close> values of which the program only
  ever takes the count; they are kept as the text of their JSON.
  The functions embedded below are those of the revision of marathon.go that checks
  frontends against \<open>frontendExpressions\<close> and installs the configuration through a
  temporary file; line numbers are those of the listing that holds nixy.go followed by
  marathon.go.
\<close>

record Frontend =
  Type :: string
  Data :: "string list"

record App =
  Tasks :: "string list list"
  Frontends :: "Frontend list"
  Labels :: "string \<rightharpoonup> string"
  Env :: "string \<rightharpoonup> string"

record HealthCheckResult =
  Alive :: bool

record Task =
  AppId :: string
  HealthCheckResults :: "HealthCheckResult list"
  Host :: string
  TaskId :: string
  Ports :: "64 word list"
  ServicePorts :: "64 word list"
  StagedAt :: string
  StartedAt :: string
  Version :: string

record MarathonApp =
  Id :: string
  AppLabels :: "string \<rightharpoonup> string"
  AppEnv :: "string \<rightharpoonup> string"
  HealthChecks :: "string list"

text \<open>A run-time panic of the Go program ends the call without a result.\<close>

datatype panic = IndexOutOfRange | NilDereference

section \<open>Library functions used by the materializer\<close>

subsection \<open>strconv.FormatInt in base 10\<close>

definition digit_char :: "nat \<Rightarrow> char" where
  "digit_char d = ''0123456789'' ! d"

function digits10 :: "nat \<Rightarrow> string" where
  "digits10 n = (if n < 10 then [digit_char n] else digits10 (n div 10) @ [digit_char (n mod 10)])"
  by pat_completeness auto
termination
  by (relation "measure (\<lambda>n. n)") auto

declare digits10.simps [simp del]

definition FormatInt :: "64 word \<Rightarrow> string" where
  "FormatInt p = (if sint p < 0 then CHR ''-'' # digits10 (nat (- sint p)) else digits10 (nat (sint p)))"

subsection \<open>strings.Split with a one-byte separator\<close>

text \<open>
  Every call of \<open>strings.Split\<close> in the program passes a separator of one byte
  (\<open>"/"\<close>, \<open>","\<close>, \<open>" "\<close>). The result has one more element than the string has
  separators; the empty string splits into one empty string.
\<close>

fun Split :: "string \<Rightarrow> char \<Rightarrow> string list" where
  "Split [] sep = [[]]"
| "Split (c # cs) sep =
     (if c = sep then [] # Split cs sep
      else (case Split cs sep of [] \<Rightarrow> [[c]] | w # ws \<Rightarrow> (c # w) # ws))"

subsection \<open>Regular expressions\<close>

text \<open>
  The two compiled expressions of marathon.go are kept as syntax trees and matched with
  derivatives. A character class is the list of its members.
\<close>

datatype rexp =
    Zero
  | One
  | Cls "char list"
  | Seq rexp rexp
  | Alt rexp rexp
  | Star rexp

fun nullable :: "rexp \<Rightarrow> bool" where
  "nullable Zero = False"
| "nullable One = True"
| "nullable (Cls cs) = False"
| "nullable (Seq r s) = (nullable r \<and> nullable s)"
| "nullable (Alt r s) = (nullable r \<or> nullable s)"
| "nullable (Star r) = True"

fun deriv :: "char \<Rightarrow> rexp \<Rightarrow> rexp" where
  "deriv c Zero = Zero"
| "deriv c One = Zero"
| "deriv c (Cls cs) = (if c \<in> set cs then One else Zero)"
| "deriv c (Seq r s) =
     (if nullable r then Alt (Seq (deriv c r) s) (deriv c s) else Seq (deriv c r) s)"
| "deriv c (Alt r s) = Alt (deriv c r) (deriv c s)"
| "deriv c (Star r) = Seq (deriv c r) (Star r)"

fun derivs :: "string \<Rightarrow> rexp \<Rightarrow> rexp" where
  "derivs [] r = r"
| "derivs (c # cs) r = derivs cs (deriv c r)"

definition matches :: "rexp \<Rightarrow> string \<Rightarrow> bool" where
  "matches r s = nullable (derivs s r)"

definition Plus :: "rexp \<Rightarrow> rexp" where
  "Plus r = Seq r (Star r)"

fun Lit :: "string \<Rightarrow> rexp" where
  "Lit [] = One"
| "Lit (c # cs) = Seq (Cls [c]) (Lit cs)"

text \<open>The character classes of \<open>frontendExpressions\<close>.\<close>

definition digits :: "char list" where
  "digits = ''0123456789''"

definition lowers :: "char list" where
  "lowers = ''abcdefghijklmnopqrstuvwxyz''"

definition cls_0_9_a_z_dash :: "char list" where
  "cls_0_9_a_z_dash = digits @ lowers @ ''-''"

definition cls_a_z_dot_dash :: "char list" where
  "cls_a_z_dot_dash = lowers @ ''.-''"

text \<open>
  One entry of \<open>frontendExpressions\<close>: \<open>^X+(,X+)*/type$\<close> for a class \<open>X\<close>. The
  anchors make the expression match the whole string (the expressions are compiled
  without the multi-line flag), which is what \<open>matches\<close> decides.
\<close>

definition frontendExpression :: "char list \<Rightarrow> string \<Rightarrow> rexp" where
  "frontendExpression X ty =
     Seq (Plus (Cls X)) (Seq (Star (Seq (Cls '','') (Plus (Cls X)))) (Seq (Cls ''/'') (Lit ty)))"

definition frontendExpressions :: "rexp list" where
  "frontendExpressions =
     [ frontendExpression cls_0_9_a_z_dash ''http'',
       frontendExpression cls_0_9_a_z_dash ''http-public'',
       frontendExpression cls_a_z_dot_dash ''partner'',
       frontendExpression cls_0_9_a_z_dash ''shop-dev'',
       frontendExpression cls_a_z_dot_dash ''shop'',
       frontendExpression digits ''tcp'' ]"

text \<open>
  \<open>frontendRegexp\<close> is the alternation of the entries, joined with \<open>|\<close>;
  \<open>MatchString\<close> reports whether the string matches one of them.
\<close>

definition frontendRegexp_MatchString :: "string \<Rightarrow> bool" where
  "frontendRegexp_MatchString s = list_ex (\<lambda>r. matches r s) frontendExpressions"

text \<open>
  \<open>spaceRegexp\<close> is \<open>\s+\<close>; the class \<open>\s\<close> of Go's regexp package is tab, newline,
  form feed, carriage return and space. \<open>spaceRegexp.Split(s, -1)\<close> cuts the string at
  every maximal run of such characters and keeps the empty pieces at both ends.
\<close>

definition isSpace :: "char \<Rightarrow> bool" where
  "isSpace c = (c \<in> set [CHR 0x09, CHR 0x0A, CHR 0x0C, CHR 0x0D, CHR '' ''])"

function spaceRegexp_Split :: "string \<Rightarrow> string list" where
  "spaceRegexp_Split [] = [[]]"
| "spaceRegexp_Split (c # cs) =
     (if isSpace c then [] # spaceRegexp_Split (dropWhile isSpace cs)
      else (case spaceRegexp_Split cs of [] \<Rightarrow> [[c]] | w # ws \<Rightarrow> (c # w) # ws))"
  by pat_completeness auto
termination
  by (relation "measure length") (auto simp: le_imp_less_Suc length_dropWhile_le)

declare spaceRegexp_Split.simps [simp del]

section \<open>The state materializer: syncApps\<close>

type_synonym apps_map = "string \<rightharpoonup> App"

text \<open>The string \<open>task.Host + ":" + strconv.FormatInt(port, 10)\<close>.\<close>

definition hostport :: "string \<Rightarrow> 64 word \<Rightarrow> string" where
  "hostport host port = host @ '':'' @ FormatInt port"

text \<open>
  The health gate, lines 509 to 525: the loop over \<open>task.HealthCheckResults\<close> clears
  \<open>alive\<close> at every result that is not alive.
\<close>

fun alive_loop :: "HealthCheckResult list \<Rightarrow> bool \<Rightarrow> bool" where
  "alive_loop [] alive = alive"
| "alive_loop (health # rest) alive =
     alive_loop rest (if Alive health = False then False else alive)"

text \<open>
  Lines 527 to 530, for an app already in the map: \<open>a.Tasks[index] = append(a.Tasks[index], ...)\<close>
  for every port of the task. Indexing \<open>a.Tasks\<close> beyond its length panics.
\<close>

fun append_ports :: "string \<Rightarrow> 64 word list \<Rightarrow> nat \<Rightarrow> string list list \<Rightarrow> panic + string list list" where
  "append_ports host [] index ts = Inr ts"
| "append_ports host (port # ports) index ts =
     (if index < length ts
      then append_ports host ports (Suc index) (ts[index := ts ! index @ [hostport host port]])
      else Inl IndexOutOfRange)"

text \<open>Lines 535 to 538, for a new app: one slot for every port of the task.\<close>

fun new_tasks :: "string \<Rightarrow> 64 word list \<Rightarrow> string list list \<Rightarrow> string list list" where
  "new_tasks host [] ts = ts"
| "new_tasks host (port # ports) ts = new_tasks host ports (ts @ [[hostport host port]])"

text \<open>
  Lines 543 to 553: the loop over the tokens of the label. A token that matches is split
  at \<open>/\<close> and its second piece read (an index that panics when there is none); the
  first token that does not match replaces the list and ends the loop.
\<close>

fun frontends_loop :: "string list \<Rightarrow> Frontend list \<Rightarrow> panic + Frontend list" where
  "frontends_loop [] acc = Inr acc"
| "frontends_loop (frontend # rest) acc =
     (if frontendRegexp_MatchString frontend then
        (let frontendDataAndType = Split frontend CHR ''/'' in
         if length frontendDataAndType < 2 then Inl IndexOutOfRange
         else
           (let frontendType = frontendDataAndType ! 1;
                frontendData = Split (frontendDataAndType ! 0) CHR '','' in
            frontends_loop rest (acc @ [\<lparr>Type = frontendType, Data = frontendData\<rparr>])))
      else Inr [\<lparr>Type = ''error'', Data = [''frontend '' @ frontend @ '' not recognized'']\<rparr>])"

text \<open>Lines 539 to 557: the frontends of a new app, from its labels and the task's port count.\<close>

definition parse_frontends :: "(string \<rightharpoonup> string) \<Rightarrow> nat \<Rightarrow> panic + Frontend list" where
  "parse_frontends labels nports =
     (case labels ''frontends'' of
        None \<Rightarrow> Inr []
      | Some frontendsLabel \<Rightarrow>
          (let frontends = spaceRegexp_Split frontendsLabel in
           if length frontends \<le> nports then frontends_loop frontends []
           else Inr [\<lparr>Type = ''error'', Data = [''more frontends defined than ports exposed'']\<rparr>]))"

text \<open>The body of the inner loop, lines 502 to 559, for one app and one task.\<close>

definition sync_task :: "MarathonApp \<Rightarrow> Task \<Rightarrow> apps_map \<Rightarrow> panic + apps_map" where
  "sync_task app task apps =
     (if AppId task \<noteq> Id app then Inr apps
      else if length (Ports task) = 0 then Inr apps
      else if length (HealthChecks app) > 0 \<and>
              (length (HealthCheckResults task) = 0 \<or>
               alive_loop (HealthCheckResults task) True \<noteq> True) then Inr apps
      else
        (case apps (Id app) of
           Some a \<Rightarrow>
             (case append_ports (Host task) (Ports task) 0 (Tasks a) of
                Inl p \<Rightarrow> Inl p
              | Inr ts \<Rightarrow> Inr (apps(Id app \<mapsto> a\<lparr>Tasks := ts\<rparr>)))
         | None \<Rightarrow>
             (case parse_frontends (AppLabels app) (length (Ports task)) of
                Inl p \<Rightarrow> Inl p
              | Inr fs \<Rightarrow>
                  Inr (apps(Id app \<mapsto>
                    \<lparr>Tasks = new_tasks (Host task) (Ports task) [],
                     Frontends = fs,
                     Labels = AppLabels app,
                     Env = AppEnv app\<rparr>)))))"

text \<open>The two loops, lines 500 and 501, and the function: the map starts empty.\<close>

fun tasks_loop :: "MarathonApp \<Rightarrow> Task list \<Rightarrow> apps_map \<Rightarrow> panic + apps_map" where
  "tasks_loop app [] apps = Inr apps"
| "tasks_loop app (task # rest) apps =
     (case sync_task app task apps of
        Inl p \<Rightarrow> Inl p
      | Inr apps' \<Rightarrow> tasks_loop app rest apps')"

fun apps_loop :: "MarathonApp list \<Rightarrow> Task list \<Rightarrow> apps_map \<Rightarrow> panic + apps_map" where
  "apps_loop [] tasks apps = Inr apps"
| "apps_loop (app # rest) tasks apps =
     (case tasks_loop app tasks apps of
        Inl p \<Rightarrow> Inl p
      | Inr apps' \<Rightarrow> apps_loop rest tasks apps')"

definition syncApps :: "Task list \<Rightarrow> MarathonApp list \<Rightarrow> panic + apps_map" where
  "syncApps jsontasks jsonapps = apps_loop jsonapps jsontasks Map.empty"

section \<open>The reload pipeline: fetchApps, writeConf, checkConf, reloadNginx, reload\<close>

subsection \<open>State of the process and of its surroundings\<close>

text \<open>
  \<open>Updates\<close>, \<open>Config\<close> and \<open>EndpointStatus\<close> are the structs of nixy.go; a \<open>time.Time\<close>
  is the integer reading of the clock. Of \<open>Config\<close> the lock and the statsd settings, and
  of \<open>Health\<close> the two status fields that only the health handler writes, are left out:
  no function of the pipeline reads them.
\<close>

record Updates =
  LastSync :: int
  LastConfigRendered :: int
  LastConfigValid :: int
  LastNginxReload :: int

record Config =
  Xproxy :: string
  Port :: string
  Marathon :: "string list"
  User :: string
  Pass :: string
  Nginx_config :: string
  Nginx_template :: string
  Nginx_cmd :: string
  LastUpdates :: Updates
  Apps :: apps_map

record EndpointStatus =
  Endpoint :: string
  Healthy :: bool
  Message :: string

text \<open>A Go \<open>error\<close> value is its message.\<close>

datatype error = Error string

text \<open>
  What the process does to its surroundings, in order: an HTTP request sent by
  \<open>client.Do\<close>, a receive from one of the two channels of \<open>fetchApps\<close>, a run of a
  command with its arguments, and a rename of a file.
\<close>

datatype event =
    HttpGet string
  | ChanRecv string
  | Run string "string list"
  | Rename string string

text \<open>
  The world of one reload attempt: the globals \<open>config\<close> and \<open>health.Endpoints\<close>, the
  files on disk (a path has contents or does not exist), the events so far, and how
  often \<open>time.Now\<close> was called.
\<close>

record world =
  config :: Config
  health_Endpoints :: "EndpointStatus list"
  files :: "string \<rightharpoonup> string"
  trace :: "event list"
  clock_calls :: nat

text \<open>
  The outcome of one of the two sub-requests of \<open>fetchApps\<close>: \<open>http.NewRequest\<close> failed,
  \<open>client.Do\<close> failed, the decoder failed, or the body was decoded.
\<close>

datatype 'a response =
    NewRequestError error
  | DoError error
  | DecodeError error
  | Decoded 'a

text \<open>
  The outcome of \<open>template.Execute\<close>: the complete output, or an error after part of the
  output was written. The outcome of \<open>cmd.Run\<close>: the command exited with a status and
  what it wrote to stderr, or it could not be started.
\<close>

datatype executed = ExecOk string | ExecError string error

datatype ran = Exited nat string | NotStarted string

text \<open>
  Everything the pipeline gets from outside the repository is a parameter: the clock
  (the reading of the \<open>k\<close>-th call of \<open>time.Now\<close>), the answers of Marathon to the two
  URLs, the template library (\<open>ParseFiles\<close> on the contents of the template file, if it
  exists, and \<open>Execute\<close> of the parsed template on the configuration), the default
  directory for temporary files, the random suffix and the possible failure of
  \<open>ioutil.TempFile\<close>, the outcome of running a command on the files as they are, and
  the possible failure of \<open>os.Rename\<close>.
\<close>

record env =
  Now :: "nat \<Rightarrow> int"
  Get_tasks :: "string \<Rightarrow> Task list response"
  Get_apps :: "string \<Rightarrow> MarathonApp list response"
  ParseFiles :: "string option \<Rightarrow> error + string"
  Execute :: "string \<Rightarrow> Config \<Rightarrow> executed"
  TempDir :: string
  nextSuffix :: string
  TempFile_error :: "error option"
  cmd_Run :: "string \<Rightarrow> string list \<Rightarrow> (string \<rightharpoonup> string) \<Rightarrow> ran"
  Rename_error :: "string \<Rightarrow> string \<Rightarrow> error option"

text \<open>
  How a call ends: it returns nil, it returns an error, or it panics. The stage is a
  label of the return statement that produced the error, not a value of the program:
  \<open>Fetch\<close> for line 655, \<open>Render\<close> for lines 581 and 589, \<open>Validate\<close> for line 595,
  \<open>Install\<close> for line 600 and \<open>Signal\<close> for line 672.
\<close>

datatype stage = Fetch | Render | Validate | Install | Signal

datatype outcome = Done | Failed stage error | Panicked panic

definition time_Now :: "env \<Rightarrow> world \<Rightarrow> int \<times> world" where
  "time_Now env w = (Now env (clock_calls w), w\<lparr>clock_calls := Suc (clock_calls w)\<rparr>)"

subsection \<open>fetchApps\<close>

text \<open>Lines 419 to 425: the first endpoint marked healthy, or the initial empty string.\<close>

fun first_healthy :: "EndpointStatus list \<Rightarrow> string \<Rightarrow> string" where
  "first_healthy [] endpoint = endpoint"
| "first_healthy (es # rest) endpoint =
     (if Healthy es = True then Endpoint es else first_healthy rest endpoint)"

text \<open>
  One of the two goroutines, lines 437 to 460 and 461 to 484: the request is sent unless
  it could not be built, and the error or nil is sent on the channel as the last step.
  The result is the events of the goroutine and what it sent, with the decoded value when
  it sent nil.
\<close>

definition sub_request :: "string \<Rightarrow> 'a response \<Rightarrow> event list \<times> (error + 'a)" where
  "sub_request url r =
     (case r of
        NewRequestError err \<Rightarrow> ([], Inl err)
      | DoError err \<Rightarrow> ([HttpGet url], Inl err)
      | DecodeError err \<Rightarrow> ([HttpGet url], Inl err)
      | Decoded v \<Rightarrow> ([HttpGet url], Inr v))"

text \<open>
  \<open>fetchApps\<close>: without a healthy endpoint it returns at line 428. Otherwise both
  goroutines run, line 485 receives from \<open>appschn\<close> and line 486 from \<open>taskschn\<close> (the
  channels are unbuffered, so each receive ends when its goroutine has sent), and
  only then the two errors are looked at, \<open>appserr\<close> first.
\<close>

definition fetchApps :: "env \<Rightarrow> world \<Rightarrow> (error + Task list \<times> MarathonApp list) \<times> event list" where
  "fetchApps env w =
     (let endpoint = first_healthy (health_Endpoints w) [] in
      if endpoint = [] then (Inl (Error ''all endpoints are down''), [])
      else
        (let (tasks_events, tasks_sent) =
               sub_request (endpoint @ ''/v2/tasks'') (Get_tasks env (endpoint @ ''/v2/tasks''));
             (apps_events, apps_sent) =
               sub_request (endpoint @ ''/v2/apps'') (Get_apps env (endpoint @ ''/v2/apps''));
             events = tasks_events @ apps_events @ [ChanRecv ''appschn'', ChanRecv ''taskschn'']
         in case apps_sent of
              Inl appserr \<Rightarrow> (Inl appserr, events)
            | Inr jsonapps \<Rightarrow>
                (case tasks_sent of
                   Inl taskserr \<Rightarrow> (Inl taskserr, events)
                 | Inr jsontasks \<Rightarrow> (Inr (jsontasks, jsonapps), events))))"

subsection \<open>writeConf and the two commands\<close>

text \<open>
  \<open>ioutil.TempFile(dir, prefix)\<close>: an empty \<open>dir\<close> stands for the default directory for
  temporary files. The file is created exclusively, so a name that exists is not taken.
\<close>

definition TempFile :: "env \<Rightarrow> string \<Rightarrow> string \<Rightarrow> (string \<rightharpoonup> string) \<Rightarrow> (error + string) \<times> (string \<rightharpoonup> string)" where
  "TempFile env dir prefix fs =
     (let d = (if dir = [] then TempDir env else dir);
          name = d @ ''/'' @ prefix @ nextSuffix env
      in case TempFile_error env of
           Some err \<Rightarrow> (Inl err, fs)
         | None \<Rightarrow>
             if fs name \<noteq> None then (Inl (Error ''file exists''), fs)
             else (Inr name, fs(name \<mapsto> [])))"

text \<open>
  \<open>os.Rename\<close>: on success the new path has the contents of the old one, which is gone;
  on failure nothing changes.
\<close>

definition os_Rename :: "env \<Rightarrow> string \<Rightarrow> string \<Rightarrow> (string \<rightharpoonup> string) \<Rightarrow> error option \<times> (string \<rightharpoonup> string)" where
  "os_Rename env oldpath newpath fs =
     (case Rename_error env oldpath newpath of
        Some err \<Rightarrow> (Some err, fs)
      | None \<Rightarrow>
          if oldpath = newpath then (None, fs)
          else (None, (fs(newpath := fs oldpath))(oldpath := None)))"

text \<open>
  Lines 622 to 631 and 635 to 644: the command is run; it succeeds when it exits with
  status 0, and otherwise the error is \<open>fmt.Sprint(err) + ": " + stderr.String()\<close>.
\<close>

definition run_error :: "ran \<Rightarrow> error option" where
  "run_error r =
     (case r of
        Exited status stderr \<Rightarrow>
          if status = 0 then None
          else Some (Error (''exit status '' @ digits10 status @ '': '' @ stderr))
      | NotStarted msg \<Rightarrow> Some (Error (msg @ '': '')))"

definition checkConf :: "env \<Rightarrow> string \<Rightarrow> world \<Rightarrow> error option \<times> world" where
  "checkConf env path w =
     (let args = [''-c'', path, ''-t''] in
      (run_error (cmd_Run env (Nginx_cmd (config w)) args (files w)),
       w\<lparr>trace := trace w @ [Run (Nginx_cmd (config w)) args]\<rparr>))"

definition reloadNginx :: "env \<Rightarrow> world \<Rightarrow> error option \<times> world" where
  "reloadNginx env w =
     (let args = [''-s'', ''reload''] in
      (run_error (cmd_Run env (Nginx_cmd (config w)) args (files w)),
       w\<lparr>trace := trace w @ [Run (Nginx_cmd (config w)) args]\<rparr>))"

text \<open>
  Lines 593 to 603, with the temporary file at \<open>name\<close>: validate, then rename over
  \<open>config.Nginx_config\<close>.
\<close>

definition check_and_install :: "env \<Rightarrow> string \<Rightarrow> world \<Rightarrow> outcome \<times> world" where
  "check_and_install env name w =
     (case checkConf env name w of
        (Some err, w1) \<Rightarrow> (Failed Validate err, w1)
      | (None, w1) \<Rightarrow>
          (case os_Rename env name (Nginx_config (config w1)) (files w1) of
             (Some err, fs) \<Rightarrow>
               (Failed Install err, w1\<lparr>trace := trace w1 @ [Rename name (Nginx_config (config w1))]\<rparr>)
           | (None, fs) \<Rightarrow>
               (Done, w1\<lparr>files := fs, trace := trace w1 @ [Rename name (Nginx_config (config w1))]\<rparr>)))"

text \<open>The assignment \<open>config.LastUpdates.LastConfigRendered = time.Now()\<close> of line 591.\<close>

definition stamp_rendered :: "env \<Rightarrow> world \<Rightarrow> world" where
  "stamp_rendered env w =
     (case time_Now env w of
        (t, w1) \<Rightarrow> w1\<lparr>config := (config w1)\<lparr>LastUpdates := (LastUpdates (config w1))\<lparr>LastConfigRendered := t\<rparr>\<rparr>\<rparr>)"

text \<open>
  \<open>writeConf\<close>. The error of \<open>ioutil.TempFile\<close> is overwritten at line 587 without being
  looked at, so after a failure \<open>tmpFile\<close> is nil: a write to it fails, which
  \<open>Execute\<close> returns as its error when there is output to write, and \<open>tmpFile.Name()\<close>
  at line 593 dereferences nil.
\<close>

definition writeConf :: "env \<Rightarrow> world \<Rightarrow> outcome \<times> world" where
  "writeConf env w =
     (case ParseFiles env (files w (Nginx_template (config w))) of
        Inl err \<Rightarrow> (Failed Render err, w)
      | Inr template \<Rightarrow>
          (case TempFile env [] ''nixy'' (files w) of
             (Inl tmperr, fs) \<Rightarrow>
               (case Execute env template (config w) of
                  ExecError written err \<Rightarrow>
                    (Failed Render (if written = [] then err else Error ''invalid argument''), w)
                | ExecOk written \<Rightarrow>
                    if written = [] then (Panicked NilDereference, stamp_rendered env w)
                    else (Failed Render (Error ''invalid argument''), w))
           | (Inr name, fs) \<Rightarrow>
               (case Execute env template (config w) of
                  ExecError written err \<Rightarrow> (Failed Render err, w\<lparr>files := fs(name \<mapsto> written)\<rparr>)
                | ExecOk written \<Rightarrow>
                    check_and_install env name (stamp_rendered env (w\<lparr>files := fs(name \<mapsto> written)\<rparr>)))))"

subsection \<open>reload\<close>

text \<open>The assignments to \<open>config.Apps\<close> and to the stamps of \<open>reload\<close>.\<close>

definition set_Apps :: "apps_map \<Rightarrow> world \<Rightarrow> world" where
  "set_Apps m w = w\<lparr>config := (config w)\<lparr>Apps := m\<rparr>\<rparr>"

definition stamp_sync :: "env \<Rightarrow> world \<Rightarrow> world" where
  "stamp_sync env w =
     (case time_Now env w of
        (t, w1) \<Rightarrow> w1\<lparr>config := (config w1)\<lparr>LastUpdates := (LastUpdates (config w1))\<lparr>LastSync := t\<rparr>\<rparr>\<rparr>)"

definition stamp_valid :: "env \<Rightarrow> world \<Rightarrow> world" where
  "stamp_valid env w =
     (case time_Now env w of
        (t, w1) \<Rightarrow> w1\<lparr>config := (config w1)\<lparr>LastUpdates := (LastUpdates (config w1))\<lparr>LastConfigValid := t\<rparr>\<rparr>\<rparr>)"

definition stamp_reload :: "env \<Rightarrow> world \<Rightarrow> world" where
  "stamp_reload env w =
     (case time_Now env w of
        (t, w1) \<Rightarrow> w1\<lparr>config := (config w1)\<lparr>LastUpdates := (LastUpdates (config w1))\<lparr>LastNginxReload := t\<rparr>\<rparr>\<rparr>)"

text \<open>
  \<open>reload\<close>, lines 647 to 676. A panic of \<open>syncApps\<close> ends the process while the map is
  being rebuilt; the world returned with it is the one before the rebuild.
\<close>

definition reload :: "env \<Rightarrow> world \<Rightarrow> outcome \<times> world" where
  "reload env w =
     (case fetchApps env w of
        (Inl err, events) \<Rightarrow> (Failed Fetch err, w\<lparr>trace := trace w @ events\<rparr>)
      | (Inr (jsontasks, jsonapps), events) \<Rightarrow>
          (let w1 = w\<lparr>trace := trace w @ events\<rparr> in
           case syncApps jsontasks jsonapps of
             Inl p \<Rightarrow> (Panicked p, w1)
           | Inr m \<Rightarrow>
               (case writeConf env (stamp_sync env (set_Apps m w1)) of
                  (Panicked p, w2) \<Rightarrow> (Panicked p, w2)
                | (Failed k err, w2) \<Rightarrow> (Failed k err, w2)
                | (Done, w2) \<Rightarrow>
                    (case reloadNginx env (stamp_valid env w2) of
                       (Some err, w3) \<Rightarrow> (Failed Signal err, w3)
                     | (None, w3) \<Rightarrow> (Done, stamp_reload env w3)))))"

text \<open>
  The directory of a path, as \<open>filepath.Dir\<close> gives it for a path without a trailing
  slash: the path up to its last slash, \<open>/\<close> for a file of the root and \<open>.\<close> for a
  path without a slash.
\<close>

definition filepath_Dir :: "string \<Rightarrow> string" where
  "filepath_Dir path =
     (if CHR ''/'' \<notin> set path then ''.''
      else (let d = rev (tl (dropWhile (\<lambda>c. c \<noteq> CHR ''/'') (rev path)))
            in if d = [] then ''/'' else d))"

section \<open>Specification of the materializer\<close>

text \<open>
  The gate of the specification: a task contributes to an app when its \<open>appId\<close> is the
  app's id, it exposes at least one port and, when the app declares health checks, it has at
  least one reported result and every reported result is alive.
\<close>

definition contributes :: "MarathonApp \<Rightarrow> Task \<Rightarrow> bool" where
  "contributes app task =
     (AppId task = Id app \<and> 0 < length (Ports task) \<and>
      (0 < length (HealthChecks app) \<longrightarrow>
         0 < length (HealthCheckResults task) \<and>
         (\<forall>health \<in> set (HealthCheckResults task). Alive health = True)))"

text \<open>
  The pairs of an app definition with the given id and a task that contributes to it, in
  the order in which the two loops of \<open>syncApps\<close> visit them.
\<close>

definition contributors :: "string \<Rightarrow> MarathonApp list \<Rightarrow> Task list \<Rightarrow> (MarathonApp \<times> Task) list" where
  "contributors appid apps tasks =
     concat (map (\<lambda>app. map (Pair app) (filter (contributes app) tasks))
                 (filter (\<lambda>app. Id app = appid) apps))"

text \<open>
  What the tasks \<open>ts\<close> put into the port slot of index \<open>i\<close>: the \<open>host:port\<close> string of
  every task that has a port of that index, in order.
\<close>

definition slot_entries :: "nat \<Rightarrow> Task list \<Rightarrow> string list" where
  "slot_entries i ts =
     map (\<lambda>t. hostport (Host t) (Ports t ! i)) (filter (\<lambda>t. i < length (Ports t)) ts)"

text \<open>
  \<open>extends a cs a'\<close>: the entry \<open>a'\<close> is the entry \<open>a\<close> after the contributing tasks
  \<open>cs\<close> were appended to its slots, none of them with more ports than \<open>a\<close> has slots.
  \<open>created app t0 cs a\<close>: the entry \<open>a\<close> was inserted for the app definition \<open>app\<close> by
  its first contributing task \<open>t0\<close> and then extended by the tasks \<open>cs\<close>.
\<close>

definition extends :: "App \<Rightarrow> Task list \<Rightarrow> App \<Rightarrow> bool" where
  "extends a cs a' =
     (length (Tasks a') = length (Tasks a) \<and> Frontends a' = Frontends a \<and>
      Labels a' = Labels a \<and> Env a' = Env a \<and>
      (\<forall>i < length (Tasks a). Tasks a' ! i = Tasks a ! i @ slot_entries i cs) \<and>
      (\<forall>t \<in> set cs. length (Ports t) \<le> length (Tasks a)))"

definition created :: "MarathonApp \<Rightarrow> Task \<Rightarrow> Task list \<Rightarrow> App \<Rightarrow> bool" where
  "created app t0 cs a =
     (length (Tasks a) = length (Ports t0) \<and>
      parse_frontends (AppLabels app) (length (Ports t0)) = Inr (Frontends a) \<and>
      Labels a = AppLabels app \<and> Env a = AppEnv app \<and>
      (\<forall>i < length (Ports t0). Tasks a ! i = slot_entries i (t0 # cs)) \<and>
      (\<forall>t \<in> set cs. length (Ports t) \<le> length (Ports t0)))"

text \<open>
  A syntactic check on an expression: when it holds, every string the expression matches
  contains the character \<open>/\<close>.
\<close>

fun must_slash :: "rexp \<Rightarrow> bool" where
  "must_slash Zero = True"
| "must_slash One = False"
| "must_slash (Cls cs) = list_all (\<lambda>c. c = CHR ''/'') cs"
| "must_slash (Seq r s) = (must_slash r \<or> must_slash s)"
| "must_slash (Alt r s) = (must_slash r \<and> must_slash s)"
| "must_slash (Star r) = False"

text \<open>
  Every contributing task of an app exposes as many ports as the first contributing task
  of that app.
\<close>

definition uniform_ports :: "Task list \<Rightarrow> MarathonApp list \<Rightarrow> bool" where
  "uniform_ports tasks apps =
     (\<forall>app \<in> set apps.
        case contributors (Id app) apps tasks of
          [] \<Rightarrow> True
        | (app0, t0) # ps \<Rightarrow> \<forall>(app', t) \<in> set ps. length (Ports t) = length (Ports t0))"

section \<open>Concrete inputs\<close>

text \<open>The entry of an app in the result of \<open>syncApps\<close>; none when the call panicked.\<close>

definition lookup_app :: "panic + apps_map \<Rightarrow> string \<Rightarrow> App option" where
  "lookup_app r appid = (case r of Inl p \<Rightarrow> None | Inr m \<Rightarrow> m appid)"

text \<open>
  A decoded task and a decoded app definition with the fields that the scenarios vary:
  the health results of a task are given by their \<open>alive\<close> flags, the labels of an app by
  its \<open>frontends\<close> label, if any.
\<close>

definition mk_task :: "string \<Rightarrow> string \<Rightarrow> 64 word list \<Rightarrow> bool list \<Rightarrow> Task" where
  "mk_task appid host ports alive =
     \<lparr>AppId = appid, HealthCheckResults = map (\<lambda>b. \<lparr>Alive = b\<rparr>) alive, Host = host,
      TaskId = host, Ports = ports, ServicePorts = [], StagedAt = [], StartedAt = [],
      Version = []\<rparr>"

definition mk_app :: "string \<Rightarrow> string option \<Rightarrow> string list \<Rightarrow> MarathonApp" where
  "mk_app appid frontends hcs =
     \<lparr>Id = appid,
      AppLabels = (case frontends of None \<Rightarrow> Map.empty | Some l \<Rightarrow> [''frontends'' \<mapsto> l]),
      AppEnv = Map.empty, HealthChecks = hcs\<rparr>"

text \<open>
  The happy path of the specification: app \<open>/web\<close>, label \<open>frontends\<close> =
  \<open>example.com/http\<close>, no health checks, tasks \<open>hostA\<close> with port 31001 and \<open>hostB\<close> with
  port 31002.
\<close>

definition web_app :: MarathonApp where
  "web_app = mk_app ''/web'' (Some ''example.com/http'') []"

definition dotless_app :: MarathonApp where
  "dotless_app = mk_app ''/web'' (Some ''example/http'') []"

definition web_taskA :: Task where
  "web_taskA = mk_task ''/web'' ''hostA'' [31001] []"

definition web_taskB :: Task where
  "web_taskB = mk_task ''/web'' ''hostB'' [31002] []"

text \<open>
  An app with one health check: task A reports alive, task B reports one result that is not
  alive, task C reports no result, task D exposes no port.
\<close>

definition hc_app :: MarathonApp where
  "hc_app = mk_app ''/web'' None [''{\"protocol\":\"HTTP\"}'']"

definition hc_taskA :: Task where
  "hc_taskA = mk_task ''/web'' ''hostA'' [31001] [True]"

definition hc_taskB :: Task where
  "hc_taskB = mk_task ''/web'' ''hostB'' [31002] [True, False]"

definition hc_taskC :: Task where
  "hc_taskC = mk_task ''/web'' ''hostC'' [31003] []"

definition hc_taskD :: Task where
  "hc_taskD = mk_task ''/web'' ''hostD'' [] [True]"

text \<open>
  A first task with two ports, followed by a task with one port or with three; app
  definitions without label, with two frontends, and with a malformed frontend.
\<close>

definition two_taskA :: Task where
  "two_taskA = mk_task ''/web'' ''hostA'' [31001, 31002] []"

definition one_taskB :: Task where
  "one_taskB = mk_task ''/web'' ''hostB'' [31003] []"

definition three_taskB :: Task where
  "three_taskB = mk_task ''/web'' ''hostB'' [31001, 31002, 31003] []"

definition plain_app :: MarathonApp where
  "plain_app = mk_app ''/web'' None []"

definition many_app :: MarathonApp where
  "many_app = mk_app ''/web'' (Some ''a.com/http b.com/http'') []"

definition bogus_app :: MarathonApp where
  "bogus_app = mk_app ''/web'' (Some ''GOOD.com/http bogus'') []"

definition bogus2_app :: MarathonApp where
  "bogus2_app = mk_app ''/web'' (Some ''good/http bogus'') []"

section \<open>Concrete surroundings\<close>

text \<open>What the apps and the tasks goroutine of \<open>fetchApps\<close> send for an endpoint.\<close>

definition apps_result :: "env \<Rightarrow> string \<Rightarrow> error + MarathonApp list" where
  "apps_result env endpoint =
     snd (sub_request (endpoint @ ''/v2/apps'') (Get_apps env (endpoint @ ''/v2/apps'')))"

definition tasks_result :: "env \<Rightarrow> string \<Rightarrow> error + Task list" where
  "tasks_result env endpoint =
     snd (sub_request (endpoint @ ''/v2/tasks'') (Get_tasks env (endpoint @ ''/v2/tasks'')))"

text \<open>
  Surroundings in which every step succeeds: Marathon answers with the two tasks of the
  happy path and the app with the label \<open>example/http\<close>, the template renders, both
  commands exit with status 0 and the rename succeeds. The world has an old configuration
  file, a template file, and two endpoints of which the second is healthy.
\<close>

definition base_env :: env where
  "base_env =
     \<lparr>Now = (\<lambda>k. 1000 + int k),
      Get_tasks = (\<lambda>url. Decoded [web_taskA, web_taskB]),
      Get_apps = (\<lambda>url. Decoded [dotless_app]),
      ParseFiles = (\<lambda>contents. case contents of
                      None \<Rightarrow> Inl (Error ''open /etc/nginx/nginx.tmpl: no such file or directory'')
                    | Some text \<Rightarrow> Inr text),
      Execute = (\<lambda>template cfg. ExecOk (''# rendered: '' @ template)),
      TempDir = ''/tmp'',
      nextSuffix = ''123456789'',
      TempFile_error = None,
      cmd_Run = (\<lambda>cmd args fs. Exited 0 []),
      Rename_error = (\<lambda>oldpath newpath. None)\<rparr>"

definition base_world :: world where
  "base_world =
     \<lparr>config =
        \<lparr>Xproxy = [], Port = ''6000'', Marathon = [''http://m1:8080'', ''http://m2:8080''],
         User = [], Pass = [],
         Nginx_config = ''/etc/nginx/nginx.conf'',
         Nginx_template = ''/etc/nginx/nginx.tmpl'',
         Nginx_cmd = ''nginx'',
         LastUpdates = \<lparr>LastSync = 10, LastConfigRendered = 20, LastConfigValid = 30, LastNginxReload = 40\<rparr>,
         Apps = Map.empty\<rparr>,
      health_Endpoints =
        [\<lparr>Endpoint = ''http://m1:8080'', Healthy = False, Message = ''500 Internal Server Error''\<rparr>,
         \<lparr>Endpoint = ''http://m2:8080'', Healthy = True, Message = ''OK''\<rparr>],
      files = [''/etc/nginx/nginx.conf'' \<mapsto> ''# old'', ''/etc/nginx/nginx.tmpl'' \<mapsto> ''upstream''],
      trace = [],
      clock_calls = 0\<rparr>"

text \<open>Both sub-requests fail; no endpoint is healthy.\<close>

definition both_fail_env :: env where
  "both_fail_env =
     base_env\<lparr>Get_tasks := (\<lambda>url. DoError (Error ''tasks: connection refused'')),
              Get_apps := (\<lambda>url. DecodeError (Error ''apps: unexpected EOF''))\<rparr>"

definition all_down_world :: world where
  "all_down_world =
     base_world\<lparr>health_Endpoints :=
        [\<lparr>Endpoint = ''http://m1:8080'', Healthy = False, Message = ''500 Internal Server Error''\<rparr>,
         \<lparr>Endpoint = ''http://m2:8080'', Healthy = False, Message = ''connection refused''\<rparr>]\<rparr>"

text \<open>
  Surroundings in which one step fails: the rename, the validation of the candidate, the
  reload signal.
\<close>

definition rename_fail_env :: env where
  "rename_fail_env =
     base_env\<lparr>Rename_error := (\<lambda>oldpath newpath. Some (Error ''invalid cross-device link''))\<rparr>"

definition invalid_conf_env :: env where
  "invalid_conf_env =
     base_env\<lparr>cmd_Run := (\<lambda>cmd args fs.
        if args = [''-s'', ''reload''] then Exited 0 [] else Exited 1 ''nginx: [emerg] unexpected end of file'')\<rparr>"

definition signal_fail_env :: env where
  "signal_fail_env =
     base_env\<lparr>cmd_Run := (\<lambda>cmd args fs.
        if args = [''-s'', ''reload''] then Exited 1 ''nginx: [error] invalid PID number'' else Exited 0 [])\<rparr>"

section \<open>Lemmas about the materializer\<close>

subsection \<open>The loops of syncApps\<close>

lemma Split_nonempty: "Split s sep \<noteq> []"
  by (induction s) (auto split: list.splits)

lemma alive_loop_eq: "alive_loop hs b = (b \<and> (\<forall>h \<in> set hs. Alive h))"
  by (induction hs arbitrary: b) auto

lemma new_tasks_eq: "new_tasks host ports ts = ts @ map (\<lambda>p. [hostport host p]) ports"
  by (induction ports arbitrary: ts) auto

lemma append_ports_Inr:
  "append_ports host ports k ts = Inr ts' \<Longrightarrow> k \<le> length ts \<Longrightarrow>
     k + length ports \<le> length ts \<and> length ts' = length ts \<and>
     (\<forall>i < length ts. ts' ! i =
        (if k \<le> i \<and> i < k + length ports then ts ! i @ [hostport host (ports ! (i - k))] else ts ! i))"
proof (induction ports arbitrary: k ts)
  case Nil
  then show ?case by simp
next
  case (Cons port ports)
  from Cons.prems have lt: "k < length ts"
    by (auto split: if_splits)
  let ?ts = "ts[k := ts ! k @ [hostport host port]]"
  from Cons.prems lt have rec: "append_ports host ports (Suc k) ?ts = Inr ts'"
    by simp
  from lt have "Suc k \<le> length ?ts" by simp
  from Cons.IH [OF rec this]
  have b: "Suc k + length ports \<le> length ts" and l: "length ts' = length ts"
    and n: "\<forall>i < length ts. ts' ! i =
        (if Suc k \<le> i \<and> i < Suc k + length ports then ?ts ! i @ [hostport host (ports ! (i - Suc k))] else ?ts ! i)"
    by simp_all
  have "ts' ! i = (if k \<le> i \<and> i < k + length (port # ports) then ts ! i @ [hostport host ((port # ports) ! (i - k))] else ts ! i)"
    if "i < length ts" for i
  proof (cases "i = k")
    case True
    with n that lt show ?thesis by simp
  next
    case False
    with n that lt show ?thesis by (auto simp: nth_Cons')
  qed
  with b l show ?case by simp
qed

lemma append_ports_Inl:
  "append_ports host ports k ts = Inl p \<Longrightarrow> p = IndexOutOfRange \<and> length ts < k + length ports"
proof (induction ports arbitrary: k ts)
  case Nil
  then show ?case by simp
next
  case (Cons port ports)
  show ?case
  proof (cases "k < length ts")
    case True
    with Cons.prems have "append_ports host ports (Suc k) (ts[k := ts ! k @ [hostport host port]]) = Inl p"
      by simp
    from Cons.IH [OF this] show ?thesis by simp
  next
    case False
    with Cons.prems show ?thesis by simp
  qed
qed

lemma append_ports_total:
  "length ports \<le> length ts \<Longrightarrow> \<exists>ts'. append_ports host ports 0 ts = Inr ts'"
  by (cases "append_ports host ports 0 ts") (auto dest: append_ports_Inl)

lemma sync_task_skip: "\<not> contributes app task \<Longrightarrow> sync_task app task m = Inr m"
  by (auto simp: sync_task_def contributes_def alive_loop_eq)

lemma sync_task_contributes:
  "contributes app task \<Longrightarrow> sync_task app task m =
     (case m (Id app) of
           Some a \<Rightarrow>
             (case append_ports (Host task) (Ports task) 0 (Tasks a) of
                Inl p \<Rightarrow> Inl p
              | Inr ts \<Rightarrow> Inr (m(Id app \<mapsto> a\<lparr>Tasks := ts\<rparr>)))
         | None \<Rightarrow>
             (case parse_frontends (AppLabels app) (length (Ports task)) of
                Inl p \<Rightarrow> Inl p
              | Inr fs \<Rightarrow>
                  Inr (m(Id app \<mapsto>
                    \<lparr>Tasks = new_tasks (Host task) (Ports task) [],
                     Frontends = fs,
                     Labels = AppLabels app,
                     Env = AppEnv app\<rparr>))))"
  by (auto simp: sync_task_def contributes_def alive_loop_eq)

lemma sync_task_other:
  "sync_task app task m = Inr m' \<Longrightarrow> appid \<noteq> Id app \<Longrightarrow> m' appid = m appid"
  by (cases "contributes app task")
     (auto simp: sync_task_skip sync_task_contributes split: option.splits sum.splits)

lemma slot_entries_Nil: "slot_entries i [] = []"
  by (simp add: slot_entries_def)

lemma slot_entries_append: "slot_entries i (xs @ ys) = slot_entries i xs @ slot_entries i ys"
  by (simp add: slot_entries_def)

lemma slot_entries_Cons:
  "slot_entries i (t # ts) =
     (if i < length (Ports t) then hostport (Host t) (Ports t ! i) # slot_entries i ts
      else slot_entries i ts)"
  by (simp add: slot_entries_def)

lemma extends_refl: "extends a [] a"
  by (simp add: extends_def slot_entries_Nil)

lemma extends_trans:
  "extends a cs a' \<Longrightarrow> extends a' cs' a'' \<Longrightarrow> extends a (cs @ cs') a''"
  by (auto simp: extends_def slot_entries_append)

lemma sync_task_extends:
  assumes "contributes app task" and "m (Id app) = Some a" and "sync_task app task m = Inr m'"
  shows "\<exists>a'. m' (Id app) = Some a' \<and> extends a [task] a'"
proof -
  from assms obtain ts where ap: "append_ports (Host task) (Ports task) 0 (Tasks a) = Inr ts"
    and m': "m' = m(Id app \<mapsto> a\<lparr>Tasks := ts\<rparr>)"
    by (auto simp: sync_task_contributes split: sum.splits)
  from append_ports_Inr [OF ap] have "extends a [task] (a\<lparr>Tasks := ts\<rparr>)"
    by (simp add: extends_def slot_entries_Cons slot_entries_Nil)
  with m' show ?thesis by simp
qed

lemma sync_task_created:
  assumes "contributes app task" and "m (Id app) = None" and "sync_task app task m = Inr m'"
  shows "\<exists>a. m' (Id app) = Some a \<and> created app task [] a"
proof -
  from assms obtain fs where pf: "parse_frontends (AppLabels app) (length (Ports task)) = Inr fs"
    and m': "m' = m(Id app \<mapsto> \<lparr>Tasks = new_tasks (Host task) (Ports task) [], Frontends = fs,
                     Labels = AppLabels app, Env = AppEnv app\<rparr>)"
    by (auto simp: sync_task_contributes split: sum.splits)
  have "created app task [] \<lparr>Tasks = new_tasks (Host task) (Ports task) [], Frontends = fs,
                     Labels = AppLabels app, Env = AppEnv app\<rparr>"
    using pf by (simp add: created_def new_tasks_eq slot_entries_Cons slot_entries_Nil)
  with m' show ?thesis by simp
qed

lemma created_extends:
  "created app t0 cs a \<Longrightarrow> extends a cs' a' \<Longrightarrow> created app t0 (cs @ cs') a'"
  by (auto simp: created_def extends_def slot_entries_append slot_entries_Cons)

lemma tasks_loop_other:
  "tasks_loop app tasks m = Inr m' \<Longrightarrow> appid \<noteq> Id app \<Longrightarrow> m' appid = m appid"
proof (induction tasks arbitrary: m)
  case Nil
  then show ?case by simp
next
  case (Cons task tasks)
  from Cons.prems obtain m1 where s: "sync_task app task m = Inr m1"
    and r: "tasks_loop app tasks m1 = Inr m'"
    by (auto split: sum.splits)
  from Cons.IH [OF r Cons.prems(2)] sync_task_other [OF s Cons.prems(2)]
  show ?case by simp
qed

lemma tasks_loop_extends:
  "tasks_loop app tasks m = Inr m' \<Longrightarrow> m (Id app) = Some a \<Longrightarrow>
     \<exists>a'. m' (Id app) = Some a' \<and> extends a (filter (contributes app) tasks) a'"
proof (induction tasks arbitrary: m a)
  case Nil
  then show ?case by (simp add: extends_refl)
next
  case (Cons task tasks)
  from Cons.prems obtain m1 where s: "sync_task app task m = Inr m1"
    and r: "tasks_loop app tasks m1 = Inr m'"
    by (auto split: sum.splits)
  show ?case
  proof (cases "contributes app task")
    case True
    from sync_task_extends [OF True Cons.prems(2) s]
    obtain a1 where a1: "m1 (Id app) = Some a1" and e1: "extends a [task] a1" by blast
    from Cons.IH [OF r a1] obtain a' where a': "m' (Id app) = Some a'"
      and e2: "extends a1 (filter (contributes app) tasks) a'" by blast
    from extends_trans [OF e1 e2] a' True show ?thesis by simp
  next
    case False
    with s have "m1 = m" by (simp add: sync_task_skip)
    with Cons.IH [OF r, of a] Cons.prems(2) False show ?thesis by simp
  qed
qed

lemma tasks_loop_created:
  "tasks_loop app tasks m = Inr m' \<Longrightarrow> m (Id app) = None \<Longrightarrow>
     (case filter (contributes app) tasks of
        [] \<Rightarrow> m' (Id app) = None
      | t0 # cs \<Rightarrow> \<exists>a. m' (Id app) = Some a \<and> created app t0 cs a)"
proof (induction tasks arbitrary: m)
  case Nil
  then show ?case by simp
next
  case (Cons task tasks)
  from Cons.prems obtain m1 where s: "sync_task app task m = Inr m1"
    and r: "tasks_loop app tasks m1 = Inr m'"
    by (auto split: sum.splits)
  show ?case
  proof (cases "contributes app task")
    case True
    from sync_task_created [OF True Cons.prems(2) s]
    obtain a1 where a1: "m1 (Id app) = Some a1" and c1: "created app task [] a1" by blast
    from tasks_loop_extends [OF r a1] obtain a' where a': "m' (Id app) = Some a'"
      and e2: "extends a1 (filter (contributes app) tasks) a'" by blast
    from created_extends [OF c1 e2] a' True show ?thesis by simp
  next
    case False
    with s have "m1 = m" by (simp add: sync_task_skip)
    with Cons.IH [OF r] Cons.prems(2) False show ?thesis by simp
  qed
qed

lemma contributors_Nil: "contributors appid [] tasks = []"
  by (simp add: contributors_def)

lemma contributors_Cons:
  "contributors appid (app # apps) tasks =
     (if Id app = appid then map (Pair app) (filter (contributes app) tasks) else [])
     @ contributors appid apps tasks"
  by (simp add: contributors_def)

lemma apps_loop_extends:
  "apps_loop apps tasks m = Inr m' \<Longrightarrow> m appid = Some a \<Longrightarrow>
     \<exists>a'. m' appid = Some a' \<and> extends a (map snd (contributors appid apps tasks)) a'"
proof (induction apps arbitrary: m a)
  case Nil
  then show ?case by (simp add: contributors_Nil extends_refl)
next
  case (Cons app apps)
  from Cons.prems obtain m1 where s: "tasks_loop app tasks m = Inr m1"
    and r: "apps_loop apps tasks m1 = Inr m'"
    by (auto split: sum.splits)
  show ?case
  proof (cases "Id app = appid")
    case True
    with Cons.prems(2) have "m (Id app) = Some a" by simp
    from tasks_loop_extends [OF s this] True
    obtain a1 where a1: "m1 appid = Some a1"
      and e1: "extends a (filter (contributes app) tasks) a1" by auto
    from Cons.IH [OF r a1] obtain a' where a': "m' appid = Some a'"
      and e2: "extends a1 (map snd (contributors appid apps tasks)) a'" by blast
    from extends_trans [OF e1 e2] a' True show ?thesis
      by (simp add: contributors_Cons comp_def)
  next
    case False
    then have "appid \<noteq> Id app" by simp
    from tasks_loop_other [OF s this] Cons.prems(2) have "m1 appid = Some a" by simp
    from Cons.IH [OF r this] False show ?thesis by (simp add: contributors_Cons)
  qed
qed

lemma apps_loop_created:
  "apps_loop apps tasks m = Inr m' \<Longrightarrow> m appid = None \<Longrightarrow>
     (case contributors appid apps tasks of
        [] \<Rightarrow> m' appid = None
      | (app0, t0) # ps \<Rightarrow> \<exists>a. m' appid = Some a \<and> created app0 t0 (map snd ps) a)"
proof (induction apps arbitrary: m)
  case Nil
  then show ?case by (simp add: contributors_Nil)
next
  case (Cons app apps)
  from Cons.prems obtain m1 where s: "tasks_loop app tasks m = Inr m1"
    and r: "apps_loop apps tasks m1 = Inr m'"
    by (auto split: sum.splits)
  show ?case
  proof (cases "Id app = appid")
    case True
    with Cons.prems(2) have none: "m (Id app) = None" by simp
    show ?thesis
    proof (cases "filter (contributes app) tasks")
      case Nil
      with tasks_loop_created [OF s none] True have "m1 appid = None" by simp
      from Cons.IH [OF r this] Nil True show ?thesis by (simp add: contributors_Cons)
    next
      case (Cons t0 cs)
      with tasks_loop_created [OF s none] True
      obtain a1 where a1: "m1 appid = Some a1" and c1: "created app t0 cs a1" by auto
      from apps_loop_extends [OF r a1] obtain a' where a': "m' appid = Some a'"
        and e2: "extends a1 (map snd (contributors appid apps tasks)) a'" by blast
      from created_extends [OF c1 e2] a' True Cons show ?thesis
        by (simp add: contributors_Cons comp_def)
    qed
  next
    case False
    then have "appid \<noteq> Id app" by simp
    from tasks_loop_other [OF s this] Cons.prems(2) have "m1 appid = None" by simp
    from Cons.IH [OF r this] False show ?thesis by (simp add: contributors_Cons)
  qed
qed

lemma syncApps_entry:
  "syncApps tasks apps = Inr m \<Longrightarrow>
     (case contributors appid apps tasks of
        [] \<Rightarrow> m appid = None
      | (app0, t0) # ps \<Rightarrow> \<exists>a. m appid = Some a \<and> created app0 t0 (map snd ps) a)"
  unfolding syncApps_def by (rule apps_loop_created) simp_all

subsection \<open>Matched frontends contain a slash; syncApps returns or panics\<close>

lemma must_slash_not_nullable: "must_slash r \<Longrightarrow> \<not> nullable r"
  by (induction r) auto

lemma must_slash_deriv: "must_slash r \<Longrightarrow> c \<noteq> CHR ''/'' \<Longrightarrow> must_slash (deriv c r)"
  by (induction r) (auto simp: list_all_iff must_slash_not_nullable)

lemma must_slash_derivs:
  "must_slash r \<Longrightarrow> nullable (derivs s r) \<Longrightarrow> CHR ''/'' \<in> set s"
proof (induction s arbitrary: r)
  case Nil
  then show ?case by (simp add: must_slash_not_nullable)
next
  case (Cons c s)
  show ?case
  proof (cases "c = CHR ''/''")
    case True
    then show ?thesis by simp
  next
    case False
    from must_slash_deriv [OF Cons.prems(1) False] Cons.prems(2) Cons.IH
    show ?thesis by simp
  qed
qed

lemma must_slash_frontendExpression: "must_slash (frontendExpression X ty)"
  by (simp add: frontendExpression_def)

lemma MatchString_slash: "frontendRegexp_MatchString s \<Longrightarrow> CHR ''/'' \<in> set s"
  by (auto simp: frontendRegexp_MatchString_def frontendExpressions_def matches_def
           intro: must_slash_derivs [OF must_slash_frontendExpression])

lemma Split_length: "sep \<in> set s \<Longrightarrow> 2 \<le> length (Split s sep)"
proof (induction s)
  case Nil
  then show ?case by simp
next
  case (Cons c s)
  show ?case
  proof (cases "c = sep")
    case True
    with Split_nonempty [of s sep] show ?thesis
      by (cases "Split s sep") auto
  next
    case False
    with Cons show ?thesis by (auto split: list.splits)
  qed
qed

lemma frontends_loop_total: "\<exists>fs. frontends_loop toks acc = Inr fs"
proof (induction toks arbitrary: acc)
  case Nil
  then show ?case by simp
next
  case (Cons tok toks)
  show ?case
  proof (cases "frontendRegexp_MatchString tok")
    case True
    from Split_length [OF MatchString_slash [OF True]]
    have "\<not> length (Split tok CHR ''/'') < 2" by simp
    with True Cons.IH show ?thesis by (simp add: Let_def)
  next
    case False
    then show ?thesis by simp
  qed
qed

lemma parse_frontends_total: "\<exists>fs. parse_frontends labels n = Inr fs"
  by (auto simp: parse_frontends_def Let_def frontends_loop_total split: option.splits)

lemma sync_task_total:
  assumes "contributes app task \<longrightarrow> length (Ports task) = n (Id app)"
    and "\<forall>appid a. m appid = Some a \<longrightarrow> length (Tasks a) = n appid"
  shows "\<exists>m'. sync_task app task m = Inr m' \<and> (\<forall>appid a. m' appid = Some a \<longrightarrow> length (Tasks a) = n appid)"
proof (cases "contributes app task")
  case False
  with assms(2) show ?thesis by (simp add: sync_task_skip)
next
  case True
  with assms(1) have len: "length (Ports task) = n (Id app)" by simp
  show ?thesis
  proof (cases "m (Id app)")
    case None
    obtain fs where "parse_frontends (AppLabels app) (length (Ports task)) = Inr fs"
      using parse_frontends_total by blast
    with True None assms(2) len show ?thesis
      by (simp add: sync_task_contributes new_tasks_eq)
  next
    case (Some a)
    with assms(2) len have "length (Ports task) \<le> length (Tasks a)" by simp
    from append_ports_total [OF this] obtain ts
      where ap: "append_ports (Host task) (Ports task) 0 (Tasks a) = Inr ts" by blast
    from append_ports_Inr [OF ap] have "length ts = length (Tasks a)" by simp
    with True Some assms(2) ap show ?thesis
      by (simp add: sync_task_contributes)
  qed
qed

lemma tasks_loop_total:
  assumes "\<forall>task \<in> set tasks. contributes app task \<longrightarrow> length (Ports task) = n (Id app)"
    and "\<forall>appid a. m appid = Some a \<longrightarrow> length (Tasks a) = n appid"
  shows "\<exists>m'. tasks_loop app tasks m = Inr m' \<and> (\<forall>appid a. m' appid = Some a \<longrightarrow> length (Tasks a) = n appid)"
  using assms
proof (induction tasks arbitrary: m)
  case Nil
  then show ?case by simp
next
  case (Cons task tasks)
  from Cons.prems(1) have h: "contributes app task \<longrightarrow> length (Ports task) = n (Id app)" by simp
  from sync_task_total [OF h Cons.prems(2)] obtain m1
    where s: "sync_task app task m = Inr m1"
      and i: "\<forall>appid a. m1 appid = Some a \<longrightarrow> length (Tasks a) = n appid" by blast
  from Cons.prems(1) have "\<forall>task \<in> set tasks. contributes app task \<longrightarrow> length (Ports task) = n (Id app)"
    by simp
  from Cons.IH [OF this i] s show ?case by simp
qed

lemma apps_loop_total:
  assumes "\<forall>app \<in> set apps. \<forall>task \<in> set tasks. contributes app task \<longrightarrow> length (Ports task) = n (Id app)"
    and "\<forall>appid a. m appid = Some a \<longrightarrow> length (Tasks a) = n appid"
  shows "\<exists>m'. apps_loop apps tasks m = Inr m' \<and> (\<forall>appid a. m' appid = Some a \<longrightarrow> length (Tasks a) = n appid)"
  using assms
proof (induction apps arbitrary: m)
  case Nil
  then show ?case by simp
next
  case (Cons app apps)
  from Cons.prems(1) have "\<forall>task \<in> set tasks. contributes app task \<longrightarrow> length (Ports task) = n (Id app)"
    by simp
  from tasks_loop_total [OF this Cons.prems(2)] obtain m1
    where s: "tasks_loop app tasks m = Inr m1"
      and i: "\<forall>appid a. m1 appid = Some a \<longrightarrow> length (Tasks a) = n appid" by blast
  from Cons.prems(1)
  have "\<forall>app \<in> set apps. \<forall>task \<in> set tasks. contributes app task \<longrightarrow> length (Ports task) = n (Id app)"
    by simp
  from Cons.IH [OF this i] s show ?case by simp
qed

lemma set_contributors:
  "((app, t) \<in> set (contributors appid apps tasks)) =
     (app \<in> set apps \<and> t \<in> set tasks \<and> Id app = appid \<and> contributes app t)"
  by (auto simp: contributors_def)

lemma syncApps_total:
  assumes "uniform_ports tasks apps"
  shows "\<exists>m. syncApps tasks apps = Inr m"
proof -
  define n where "n appid =
    (case contributors appid apps tasks of [] \<Rightarrow> 0 | (app0, t0) # ps \<Rightarrow> length (Ports t0))" for appid
  have "length (Ports t) = n (Id app)"
    if "app \<in> set apps" "t \<in> set tasks" "contributes app t" for app t
  proof -
    from that have mem: "(app, t) \<in> set (contributors (Id app) apps tasks)"
      by (simp add: set_contributors)
    then obtain app0 t0 ps where c: "contributors (Id app) apps tasks = (app0, t0) # ps"
      by (cases "contributors (Id app) apps tasks") auto
    from assms that(1)
    have "case contributors (Id app) apps tasks of [] \<Rightarrow> True
          | (app0, t0) # ps \<Rightarrow> \<forall>(app', t) \<in> set ps. length (Ports t) = length (Ports t0)"
      unfolding uniform_ports_def by blast
    with c have u: "\<forall>(app', t) \<in> set ps. length (Ports t) = length (Ports t0)"
      by simp
    from mem c have "t = t0 \<or> (app, t) \<in> set ps" by auto
    with u c show ?thesis by (auto simp: n_def)
  qed
  then have "\<forall>app \<in> set apps. \<forall>task \<in> set tasks. contributes app task \<longrightarrow> length (Ports task) = n (Id app)"
    by blast
  from apps_loop_total [OF this, of Map.empty] show ?thesis
    by (auto simp: syncApps_def)
qed

lemma sync_task_panic: "sync_task app task m = Inl p \<Longrightarrow> p = IndexOutOfRange"
  using parse_frontends_total [of "AppLabels app" "length (Ports task)"]
  by (cases "contributes app task")
     (auto simp: sync_task_skip sync_task_contributes split: option.splits sum.splits
           dest: append_ports_Inl)

lemma tasks_loop_panic: "tasks_loop app tasks m = Inl p \<Longrightarrow> p = IndexOutOfRange"
  by (induction tasks arbitrary: m) (auto split: sum.splits dest: sync_task_panic)

lemma apps_loop_panic: "apps_loop apps tasks m = Inl p \<Longrightarrow> p = IndexOutOfRange"
  by (induction apps arbitrary: m) (auto split: sum.splits dest: tasks_loop_panic)

lemma syncApps_more_ports:
  assumes "contributors appid apps tasks = (app0, t0) # ps" and "(app, t) \<in> set ps"
    and "length (Ports t0) < length (Ports t)"
  shows "syncApps tasks apps = Inl IndexOutOfRange"
proof (cases "syncApps tasks apps")
  case (Inl p)
  then show ?thesis by (auto simp: syncApps_def dest: apps_loop_panic)
next
  case (Inr m)
  from syncApps_entry [OF Inr, of appid] assms(1)
  obtain a where "created app0 t0 (map snd ps) a" by auto
  then have "\<forall>t \<in> set (map snd ps). length (Ports t) \<le> length (Ports t0)"
    by (simp add: created_def)
  with assms(2) have "length (Ports t) \<le> length (Ports t0)" by force
  with assms(3) show ?thesis by simp
qed

subsection \<open>syncApps on the concrete inputs\<close>

lemma FormatInt_31001: "FormatInt 31001 = ''31001''"
  by (simp add: FormatInt_def digits10.simps digit_char_def)

lemma FormatInt_31002: "FormatInt 31002 = ''31002''"
  by (simp add: FormatInt_def digits10.simps digit_char_def)

lemma FormatInt_31003: "FormatInt 31003 = ''31003''"
  by (simp add: FormatInt_def digits10.simps digit_char_def)

lemmas fixture_defs = mk_task_def mk_app_def web_app_def web_taskA_def web_taskB_def
  hc_app_def hc_taskA_def hc_taskB_def hc_taskC_def hc_taskD_def two_taskA_def one_taskB_def
  three_taskB_def dotless_app_def plain_app_def many_app_def bogus_app_def bogus2_app_def

lemmas eval_defs = syncApps_def sync_task_def parse_frontends_def hostport_def
  FormatInt_31001 FormatInt_31002 FormatInt_31003

lemma split_example: "spaceRegexp_Split ''example.com/http'' = [''example.com/http'']"
  by (simp add: spaceRegexp_Split.simps isSpace_def)

lemma split_many: "spaceRegexp_Split ''a.com/http b.com/http'' = [''a.com/http'', ''b.com/http'']"
  by (simp add: spaceRegexp_Split.simps isSpace_def)

lemma split_bogus: "spaceRegexp_Split ''GOOD.com/http bogus'' = [''GOOD.com/http'', ''bogus'']"
  by (simp add: spaceRegexp_Split.simps isSpace_def)

lemma split_bogus2: "spaceRegexp_Split ''good/http bogus'' = [''good/http'', ''bogus'']"
  by (simp add: spaceRegexp_Split.simps isSpace_def)

lemma nomatch_example: "\<not> frontendRegexp_MatchString ''example.com/http''"
  by code_simp

lemma nomatch_GOOD: "\<not> frontendRegexp_MatchString ''GOOD.com/http''"
  by code_simp

lemma nomatch_bogus: "\<not> frontendRegexp_MatchString ''bogus''"
  by code_simp

lemma match_good: "frontendRegexp_MatchString ''good/http''"
  by code_simp

lemma syncApps_web:
  "syncApps [web_taskA, web_taskB] [web_app] =
     Inr [''/web'' \<mapsto>
       \<lparr>Tasks = [[''hostA:31001'', ''hostB:31002'']],
        Frontends = [\<lparr>Type = ''error'', Data = [''frontend example.com/http not recognized'']\<rparr>],
        Labels = [''frontends'' \<mapsto> ''example.com/http''],
        Env = Map.empty\<rparr>]"
  by (simp add: fixture_defs eval_defs split_example nomatch_example)

lemma split_dotless: "spaceRegexp_Split ''example/http'' = [''example/http'']"
  by (simp add: spaceRegexp_Split.simps isSpace_def)

lemma match_dotless: "frontendRegexp_MatchString ''example/http''"
  by code_simp

lemma syncApps_dotless:
  "syncApps [web_taskA, web_taskB] [dotless_app] =
     Inr [''/web'' \<mapsto>
       \<lparr>Tasks = [[''hostA:31001'', ''hostB:31002'']],
        Frontends = [\<lparr>Type = ''http'', Data = [''example'']\<rparr>],
        Labels = [''frontends'' \<mapsto> ''example/http''],
        Env = Map.empty\<rparr>]"
  by (simp add: fixture_defs eval_defs split_dotless match_dotless)

lemma syncApps_hc:
  "syncApps [hc_taskA, hc_taskB, hc_taskC, hc_taskD] [hc_app] =
     Inr [''/web'' \<mapsto>
       \<lparr>Tasks = [[''hostA:31001'']], Frontends = [], Labels = Map.empty, Env = Map.empty\<rparr>]"
  by (simp add: fixture_defs eval_defs)

lemma syncApps_fewer:
  "syncApps [two_taskA, one_taskB] [plain_app] =
     Inr [''/web'' \<mapsto>
       \<lparr>Tasks = [[''hostA:31001'', ''hostB:31003''], [''hostA:31002'']], Frontends = [],
        Labels = Map.empty, Env = Map.empty\<rparr>]"
  by (simp add: fixture_defs eval_defs)

lemma syncApps_more: "syncApps [two_taskA, three_taskB] [plain_app] = Inl IndexOutOfRange"
  by (simp add: fixture_defs eval_defs)

lemma syncApps_many:
  "syncApps [web_taskA, web_taskB] [many_app] =
     Inr [''/web'' \<mapsto>
       \<lparr>Tasks = [[''hostA:31001'', ''hostB:31002'']],
        Frontends = [\<lparr>Type = ''error'', Data = [''more frontends defined than ports exposed'']\<rparr>],
        Labels = [''frontends'' \<mapsto> ''a.com/http b.com/http''],
        Env = Map.empty\<rparr>]"
  by (simp add: fixture_defs eval_defs split_many)

lemma syncApps_bogus:
  "syncApps [two_taskA] [bogus_app] =
     Inr [''/web'' \<mapsto>
       \<lparr>Tasks = [[''hostA:31001''], [''hostA:31002'']],
        Frontends = [\<lparr>Type = ''error'', Data = [''frontend GOOD.com/http not recognized'']\<rparr>],
        Labels = [''frontends'' \<mapsto> ''GOOD.com/http bogus''],
        Env = Map.empty\<rparr>]"
  by (simp add: fixture_defs eval_defs split_bogus nomatch_GOOD)

lemma Split_good: "Split ''good/http'' CHR ''/'' = [''good'', ''http'']"
  by simp

lemma syncApps_bogus2:
  "syncApps [two_taskA] [bogus2_app] =
     Inr [''/web'' \<mapsto>
       \<lparr>Tasks = [[''hostA:31001''], [''hostA:31002'']],
        Frontends = [\<lparr>Type = ''error'', Data = [''frontend bogus not recognized'']\<rparr>],
        Labels = [''frontends'' \<mapsto> ''good/http bogus''],
        Env = Map.empty\<rparr>]"
  by (simp add: fixture_defs eval_defs split_bogus2 nomatch_bogus match_good)

lemma contributors_hc:
  "contributors ''/web'' [hc_app] [hc_taskA, hc_taskB, hc_taskC, hc_taskD] = [(hc_app, hc_taskA)]"
  by (simp add: contributors_def contributes_def fixture_defs)

lemma contributors_web:
  "contributors ''/web'' [web_app] [web_taskA, web_taskB] = [(web_app, web_taskA), (web_app, web_taskB)]"
  by (simp add: contributors_def contributes_def fixture_defs)

lemma contributors_more:
  "contributors ''/web'' [plain_app] [two_taskA, three_taskB] = [(plain_app, two_taskA), (plain_app, three_taskB)]"
  by (simp add: contributors_def contributes_def fixture_defs)

lemma uniform_web: "uniform_ports [web_taskA, web_taskB] [web_app]"
  by (simp add: uniform_ports_def contributors_def contributes_def fixture_defs)

lemma contributors_many:
  "contributors ''/web'' [many_app] [web_taskA, web_taskB] = [(many_app, web_taskA), (many_app, web_taskB)]"
  by (simp add: contributors_def contributes_def fixture_defs)

lemma contributors_bogus2:
  "contributors ''/web'' [bogus2_app] [two_taskA] = [(bogus2_app, two_taskA)]"
  by (simp add: contributors_def contributes_def fixture_defs)

section \<open>Properties of the materializer\<close>

lemma syncApps_created:
  assumes "syncApps tasks apps = Inr m" and "m appid = Some a"
  shows "\<exists>app0 t0 ps. contributors appid apps tasks = (app0, t0) # ps \<and> created app0 t0 (map snd ps) a"
proof (cases "contributors appid apps tasks")
  case Nil
  with syncApps_entry [OF assms(1), of appid] assms(2) show ?thesis by simp
next
  case (Cons p ps)
  obtain app0 t0 where p: "p = (app0, t0)" by (cases p)
  with syncApps_entry [OF assms(1), of appid] assms(2) Cons show ?thesis by auto
qed

lemma contributors_contributes:
  "(app, t) \<in> set (contributors appid apps tasks) \<Longrightarrow> contributes app t"
  by (simp add: set_contributors)

lemma created_slots:
  assumes "created app0 t0 cs a" and "i < length (Tasks a)"
  shows "Tasks a ! i = slot_entries i (t0 # cs)"
  using assms by (simp add: created_def)

text \<open>
  Claim C3. When \<open>syncApps\<close> returns the map \<open>m\<close>, then for every app id: the pairs
  listed by \<open>contributors\<close> are exactly the pairs of an app definition with that id and a
  task of the task list that passes the gate \<open>contributes\<close> (matching \<open>appId\<close>, at least
  one port, and with health checks declared at least one result and all results alive);
  the id is in the map if and only if there is such a pair; and every port slot \<open>i\<close> of the
  app's entry holds exactly the \<open>host:port\<close> strings of the contributing tasks that have
  a port of index \<open>i\<close>, every contributing task having at most as many ports as the entry
  has slots. So a task puts entries into an app's slots if and only if it passes the gate,
  and a task with no port or with a failed or missing health result puts none.
\<close>

theorem syncApps_contributions:
  assumes "syncApps tasks apps = Inr m"
  shows "(\<forall>app t. ((app, t) \<in> set (contributors appid apps tasks)) =
            (app \<in> set apps \<and> t \<in> set tasks \<and> Id app = appid \<and> contributes app t)) \<and>
         ((m appid = None) = (contributors appid apps tasks = [])) \<and>
         (\<forall>a. m appid = Some a \<longrightarrow>
            (\<forall>i < length (Tasks a).
               Tasks a ! i = slot_entries i (map snd (contributors appid apps tasks))) \<and>
            (\<forall>(app, t) \<in> set (contributors appid apps tasks).
               length (Ports t) \<le> length (Tasks a)))"
proof (intro conjI allI impI)
  fix app t
  show "((app, t) \<in> set (contributors appid apps tasks)) =
          (app \<in> set apps \<and> t \<in> set tasks \<and> Id app = appid \<and> contributes app t)"
    by (rule set_contributors)
next
  show "(m appid = None) = (contributors appid apps tasks = [])"
    using syncApps_entry [OF assms, of appid]
    by (cases "contributors appid apps tasks") auto
next
  fix a i
  assume a: "m appid = Some a" and i: "i < length (Tasks a)"
  from syncApps_created [OF assms a] obtain app0 t0 ps
    where c: "contributors appid apps tasks = (app0, t0) # ps"
      and cr: "created app0 t0 (map snd ps) a" by blast
  from created_slots [OF cr i] c
  show "Tasks a ! i = slot_entries i (map snd (contributors appid apps tasks))" by simp
next
  fix a
  assume a: "m appid = Some a"
  from syncApps_created [OF assms a] obtain app0 t0 ps
    where c: "contributors appid apps tasks = (app0, t0) # ps"
      and cr: "created app0 t0 (map snd ps) a" by blast
  from cr have "length (Tasks a) = length (Ports t0)"
    and "\<forall>t \<in> set (map snd ps). length (Ports t) \<le> length (Ports t0)"
    by (simp_all add: created_def)
  with c show "\<forall>(app, t) \<in> set (contributors appid apps tasks). length (Ports t) \<le> length (Tasks a)"
    by auto
qed

text \<open>
  The theorem at the app with one health check: only task A contributes, and slot 0 is
  \<open>hostA:31001\<close>.
\<close>

theorem syncApps_contributions_witness:
  "syncApps [hc_taskA, hc_taskB, hc_taskC, hc_taskD] [hc_app] =
     Inr [''/web'' \<mapsto> \<lparr>Tasks = [[''hostA:31001'']], Frontends = [], Labels = Map.empty, Env = Map.empty\<rparr>] \<and>
   contributors ''/web'' [hc_app] [hc_taskA, hc_taskB, hc_taskC, hc_taskD] = [(hc_app, hc_taskA)] \<and>
   \<not> contributes hc_app hc_taskB \<and> \<not> contributes hc_app hc_taskC \<and> \<not> contributes hc_app hc_taskD \<and>
   [[''hostA:31001'']] ! 0 =
     slot_entries 0 (map snd (contributors ''/web'' [hc_app] [hc_taskA, hc_taskB, hc_taskC, hc_taskD])) \<and>
   slot_entries 0 [hc_taskA] = [''hostA:31001'']"
proof -
  let ?a = "\<lparr>Tasks = [[''hostA:31001'']], Frontends = [], Labels = Map.empty, Env = Map.empty\<rparr>"
  have n: "\<not> contributes hc_app hc_taskB \<and> \<not> contributes hc_app hc_taskC \<and> \<not> contributes hc_app hc_taskD"
    by (simp add: contributes_def fixture_defs)
  have s: "slot_entries 0 [hc_taskA] = [''hostA:31001'']"
    by (simp add: slot_entries_def fixture_defs hostport_def FormatInt_31001)
  from syncApps_contributions [OF syncApps_hc, of "''/web''"]
  have "\<forall>a. [''/web'' \<mapsto> ?a] ''/web'' = Some a \<longrightarrow>
            (\<forall>i < length (Tasks a).
               Tasks a ! i = slot_entries i (map snd (contributors ''/web'' [hc_app] [hc_taskA, hc_taskB, hc_taskC, hc_taskD])))"
    by blast
  then have "Tasks ?a ! 0 = slot_entries 0 (map snd (contributors ''/web'' [hc_app] [hc_taskA, hc_taskB, hc_taskC, hc_taskD]))"
    by simp
  with n s syncApps_hc contributors_hc show ?thesis by simp
qed

text \<open>
  Claim C4, amended. When \<open>syncApps\<close> returns and an app is in the map, the app has a first
  contributing task \<open>t0\<close>; the number of slots is the number of ports of \<open>t0\<close> and at
  least 1, every slot has at least one entry, and no contributing task has more ports than
  there are slots. When every later contributing task has as many ports as \<open>t0\<close>, all
  slots have the same length (the number of contributing tasks) and the number of slots is
  the number of ports of every contributing task.
\<close>

theorem syncApps_slot_lengths:
  assumes "syncApps tasks apps = Inr m" and "m appid = Some a"
  shows "\<exists>app0 t0 ps.
           contributors appid apps tasks = (app0, t0) # ps \<and>
           length (Tasks a) = length (Ports t0) \<and> 1 \<le> length (Tasks a) \<and>
           (\<forall>slot \<in> set (Tasks a). 1 \<le> length slot) \<and>
           (\<forall>(app, t) \<in> set ps. length (Ports t) \<le> length (Tasks a)) \<and>
           ((\<forall>(app, t) \<in> set ps. length (Ports t) = length (Ports t0)) \<longrightarrow>
              (\<forall>slot \<in> set (Tasks a). length slot = 1 + length ps) \<and>
              (\<forall>(app, t) \<in> set ((app0, t0) # ps). length (Tasks a) = length (Ports t)))"
proof -
  from syncApps_created [OF assms] obtain app0 t0 ps
    where c: "contributors appid apps tasks = (app0, t0) # ps"
      and cr: "created app0 t0 (map snd ps) a" by blast
  from c have "(app0, t0) \<in> set (contributors appid apps tasks)" by simp
  then have "contributes app0 t0" by (rule contributors_contributes)
  then have p0: "1 \<le> length (Ports t0)" by (simp add: contributes_def Suc_le_eq)
  from cr have len: "length (Tasks a) = length (Ports t0)" by (simp add: created_def)
  from cr have le: "\<forall>(app, t) \<in> set ps. length (Ports t) \<le> length (Tasks a)"
    by (auto simp: created_def)
  have slot: "Tasks a ! i = hostport (Host t0) (Ports t0 ! i) # slot_entries i (map snd ps)"
    if "i < length (Tasks a)" for i
    using created_slots [OF cr that] that len by (simp add: slot_entries_Cons)
  have ne: "\<forall>slot \<in> set (Tasks a). 1 \<le> length slot"
    using slot by (auto simp: in_set_conv_nth)
  have eq: "\<forall>slot \<in> set (Tasks a). length slot = 1 + length ps"
    if u: "\<forall>(app, t) \<in> set ps. length (Ports t) = length (Ports t0)"
  proof
    fix s assume "s \<in> set (Tasks a)"
    then obtain i where i: "i < length (Tasks a)" and s: "s = Tasks a ! i"
      by (auto simp: in_set_conv_nth)
    from u i len have "\<forall>t \<in> set (map snd ps). i < length (Ports t)"
      by fastforce
    then have "filter (\<lambda>t. i < length (Ports t)) (map snd ps) = map snd ps"
      by (rule filter_True)
    then have "length (slot_entries i (map snd ps)) = length ps"
      by (simp add: slot_entries_def)
    with slot [OF i] s show "length s = 1 + length ps" by simp
  qed
  from c len p0 ne le eq show ?thesis by auto
qed

text \<open>
  The theorem at the happy path: both tasks have one port, so the one slot has two entries.
\<close>

theorem syncApps_slot_lengths_witness:
  "syncApps [web_taskA, web_taskB] [web_app] =
     Inr [''/web'' \<mapsto>
       \<lparr>Tasks = [[''hostA:31001'', ''hostB:31002'']],
        Frontends = [\<lparr>Type = ''error'', Data = [''frontend example.com/http not recognized'']\<rparr>],
        Labels = [''frontends'' \<mapsto> ''example.com/http''],
        Env = Map.empty\<rparr>] \<and>
   contributors ''/web'' [web_app] [web_taskA, web_taskB] = [(web_app, web_taskA), (web_app, web_taskB)] \<and>
   length (Ports web_taskB) = length (Ports web_taskA) \<and>
   length [[''hostA:31001'', ''hostB:31002'']] = length (Ports web_taskA) \<and>
   length [[''hostA:31001'', ''hostB:31002'']] = length (Ports web_taskB) \<and>
   length [''hostA:31001'', ''hostB:31002''] = 1 + length [(web_app, web_taskB)]"
proof -
  let ?a = "\<lparr>Tasks = [[''hostA:31001'', ''hostB:31002'']],
        Frontends = [\<lparr>Type = ''error'', Data = [''frontend example.com/http not recognized'']\<rparr>],
        Labels = [''frontends'' \<mapsto> ''example.com/http''],
        Env = Map.empty\<rparr>"
  have e: "[''/web'' \<mapsto> ?a] ''/web'' = Some ?a" by simp
  from syncApps_slot_lengths [OF syncApps_web e] contributors_web
  have "length (Tasks ?a) = length (Ports web_taskA) \<and>
        ((\<forall>(app, t) \<in> set [(web_app, web_taskB)]. length (Ports t) = length (Ports web_taskA)) \<longrightarrow>
              (\<forall>slot \<in> set (Tasks ?a). length slot = 1 + length [(web_app, web_taskB)]) \<and>
              (\<forall>(app, t) \<in> set [(web_app, web_taskA), (web_app, web_taskB)]. length (Tasks ?a) = length (Ports t)))"
    by auto
  moreover have "length (Ports web_taskB) = length (Ports web_taskA)"
    by (simp add: fixture_defs)
  ultimately show ?thesis using syncApps_web contributors_web by simp
qed

text \<open>
  Claim C4 as stated fails: a first task with two ports and a second task with one port
  both contribute, the slots have the lengths 2 and 1, and there are two slots although the
  second task has one port.
\<close>

theorem syncApps_slot_lengths_counterexample:
  "contributes plain_app two_taskA \<and> contributes plain_app one_taskB \<and>
   length (Ports one_taskB) = 1 \<and>
   map_option Tasks (lookup_app (syncApps [two_taskA, one_taskB] [plain_app]) ''/web'') =
     Some [[''hostA:31001'', ''hostB:31003''], [''hostA:31002'']] \<and>
   map_option (map length \<circ> Tasks) (lookup_app (syncApps [two_taskA, one_taskB] [plain_app]) ''/web'') =
     Some [2, 1]"
proof -
  have "contributes plain_app two_taskA \<and> contributes plain_app one_taskB \<and>
        length (Ports one_taskB) = 1"
    by (simp add: contributes_def fixture_defs)
  then show ?thesis by (simp add: syncApps_fewer lookup_app_def)
qed

text \<open>
  Claim C5, amended. On the happy-path input \<open>syncApps\<close> returns the map with the one
  entry \<open>/web\<close>, whose tasks are \<open>[["hostA:31001","hostB:31002"]]\<close> and whose frontends
  are \<open>[{type:"error", data:["frontend example.com/http not recognized"]}]\<close>: the name
  alphabet of \<open>http\<close> is \<open>[0-9a-z-]\<close> and has no dot. With the label
  \<open>example/http\<close> the frontends are \<open>[{type:"http", data:["example"]}]\<close>.
\<close>

theorem syncApps_happy_path:
  "syncApps [web_taskA, web_taskB] [web_app] =
     Inr [''/web'' \<mapsto>
       \<lparr>Tasks = [[''hostA:31001'', ''hostB:31002'']],
        Frontends = [\<lparr>Type = ''error'', Data = [''frontend example.com/http not recognized'']\<rparr>],
        Labels = [''frontends'' \<mapsto> ''example.com/http''],
        Env = Map.empty\<rparr>] \<and>
   syncApps [web_taskA, web_taskB] [dotless_app] =
     Inr [''/web'' \<mapsto>
       \<lparr>Tasks = [[''hostA:31001'', ''hostB:31002'']],
        Frontends = [\<lparr>Type = ''http'', Data = [''example'']\<rparr>],
        Labels = [''frontends'' \<mapsto> ''example/http''],
        Env = Map.empty\<rparr>]"
  by (simp add: syncApps_web syncApps_dotless)

text \<open>
  Claim C5 as stated fails: on the happy-path input the frontends of \<open>/web\<close> are not
  \<open>[{type:"http", data:["example.com"]}]\<close>.
\<close>

theorem syncApps_happy_path_counterexample:
  "map_option Frontends (lookup_app (syncApps [web_taskA, web_taskB] [web_app]) ''/web'')
     \<noteq> Some [\<lparr>Type = ''http'', Data = [''example.com'']\<rparr>]"
  by (simp add: syncApps_web lookup_app_def)

lemma frontends_loop_first_bad:
  assumes "\<forall>f \<in> set pre. frontendRegexp_MatchString f" and "\<not> frontendRegexp_MatchString tok"
  shows "frontends_loop (pre @ tok # post) acc =
           Inr [\<lparr>Type = ''error'', Data = [''frontend '' @ tok @ '' not recognized'']\<rparr>]"
  using assms(1)
proof (induction pre arbitrary: acc)
  case Nil
  with assms(2) show ?case by simp
next
  case (Cons f pre)
  then have m: "frontendRegexp_MatchString f" by simp
  from Split_length [OF MatchString_slash [OF m]]
  have "\<not> length (Split f CHR ''/'') < 2" by simp
  with m Cons show ?case by (simp add: Let_def)
qed

text \<open>
  Claim C6. When \<open>syncApps\<close> returns and the entry \<open>a\<close> of an app was seeded by the app
  definition \<open>app0\<close>, whose \<open>frontends\<close> label splits at whitespace into more tokens
  than the entry has port slots, the frontends of the entry are exactly the one sentinel
  \<open>{type:"error", data:["more frontends defined than ports exposed"]}\<close>, whatever the
  tokens are; the labels are those of the definition, and the slots are populated as for
  any other app: at least one slot, slot \<open>i\<close> holding the entries of the contributing
  tasks.
\<close>

theorem syncApps_more_frontends_than_ports:
  assumes "syncApps tasks apps = Inr m" and "m appid = Some a"
    and "contributors appid apps tasks = (app0, t0) # ps"
    and "AppLabels app0 ''frontends'' = Some label"
    and "length (Tasks a) < length (spaceRegexp_Split label)"
  shows "Frontends a = [\<lparr>Type = ''error'', Data = [''more frontends defined than ports exposed'']\<rparr>] \<and>
         Labels a = AppLabels app0 \<and> 1 \<le> length (Tasks a) \<and>
         (\<forall>i < length (Tasks a).
            Tasks a ! i = slot_entries i (map snd (contributors appid apps tasks)))"
proof -
  from syncApps_created [OF assms(1,2)] assms(3)
  have cr: "created app0 t0 (map snd ps) a" by simp
  then have len: "length (Tasks a) = length (Ports t0)"
    and pf: "parse_frontends (AppLabels app0) (length (Ports t0)) = Inr (Frontends a)"
    and lab: "Labels a = AppLabels app0"
    by (simp_all add: created_def)
  from pf assms(4,5) len
  have f: "Frontends a = [\<lparr>Type = ''error'', Data = [''more frontends defined than ports exposed'']\<rparr>]"
    by (simp add: parse_frontends_def Let_def)
  from assms(3) have "contributes app0 t0"
    by (intro contributors_contributes [of app0 t0 appid apps tasks]) simp
  with len have one: "1 \<le> length (Tasks a)" by (simp add: contributes_def Suc_le_eq)
  from created_slots [OF cr] assms(3)
  have "\<forall>i < length (Tasks a). Tasks a ! i = slot_entries i (map snd (contributors appid apps tasks))"
    by simp
  with f lab one show ?thesis by simp
qed

text \<open>
  The theorem at the scenario of the specification: one port per task and the label
  \<open>a.com/http b.com/http\<close>.
\<close>

theorem syncApps_more_frontends_than_ports_witness:
  "syncApps [web_taskA, web_taskB] [many_app] =
     Inr [''/web'' \<mapsto>
       \<lparr>Tasks = [[''hostA:31001'', ''hostB:31002'']],
        Frontends = [\<lparr>Type = ''error'', Data = [''more frontends defined than ports exposed'']\<rparr>],
        Labels = [''frontends'' \<mapsto> ''a.com/http b.com/http''],
        Env = Map.empty\<rparr>] \<and>
   contributors ''/web'' [many_app] [web_taskA, web_taskB] = [(many_app, web_taskA), (many_app, web_taskB)] \<and>
   AppLabels many_app ''frontends'' = Some ''a.com/http b.com/http'' \<and>
   length [[''hostA:31001'', ''hostB:31002'']] < length (spaceRegexp_Split ''a.com/http b.com/http'') \<and>
   [[''hostA:31001'', ''hostB:31002'']] ! 0 =
     slot_entries 0 (map snd (contributors ''/web'' [many_app] [web_taskA, web_taskB]))"
proof -
  let ?a = "\<lparr>Tasks = [[''hostA:31001'', ''hostB:31002'']],
        Frontends = [\<lparr>Type = ''error'', Data = [''more frontends defined than ports exposed'']\<rparr>],
        Labels = [''frontends'' \<mapsto> ''a.com/http b.com/http''],
        Env = Map.empty\<rparr>"
  have e: "[''/web'' \<mapsto> ?a] ''/web'' = Some ?a" by simp
  have l: "AppLabels many_app ''frontends'' = Some ''a.com/http b.com/http''"
    by (simp add: fixture_defs)
  have n: "length (Tasks ?a) < length (spaceRegexp_Split ''a.com/http b.com/http'')"
    by (simp add: split_many)
  from syncApps_more_frontends_than_ports [OF syncApps_many e contributors_many l n]
  have "Tasks ?a ! 0 = slot_entries 0 (map snd (contributors ''/web'' [many_app] [web_taskA, web_taskB]))"
    by simp
  with syncApps_many contributors_many l n show ?thesis by simp
qed

text \<open>
  Claim C7, amended. When \<open>syncApps\<close> returns, the tokens of the \<open>frontends\<close> label of
  the seeding app definition are no more than the slots of the entry, and \<open>tok\<close> is the
  first token that the frontend grammar does not match, the frontends of the entry are
  exactly \<open>[{type:"error", data:["frontend <tok> not recognized"]}]\<close>, whatever tokens
  follow. For the label \<open>GOOD.com/http bogus\<close> on a task with two ports the first such
  token is \<open>GOOD.com/http\<close> (upper case and a dot are outside \<open>[0-9a-z-]\<close>), so the
  result is \<open>[{type:"error", data:["frontend GOOD.com/http not recognized"]}]\<close>; the label
  \<open>good/http bogus\<close> gives \<open>[{type:"error", data:["frontend bogus not recognized"]}]\<close>.
\<close>

theorem syncApps_first_malformed_frontend:
  "(syncApps tasks apps = Inr m \<and> m appid = Some a \<and>
    contributors appid apps tasks = (app0, t0) # ps \<and>
    AppLabels app0 ''frontends'' = Some label \<and>
    spaceRegexp_Split label = pre @ tok # post \<and>
    length (pre @ tok # post) \<le> length (Tasks a) \<and>
    (\<forall>f \<in> set pre. frontendRegexp_MatchString f) \<and>
    \<not> frontendRegexp_MatchString tok \<longrightarrow>
    Frontends a = [\<lparr>Type = ''error'', Data = [''frontend '' @ tok @ '' not recognized'']\<rparr>]) \<and>
   map_option Frontends (lookup_app (syncApps [two_taskA] [bogus_app]) ''/web'') =
     Some [\<lparr>Type = ''error'', Data = [''frontend GOOD.com/http not recognized'']\<rparr>] \<and>
   map_option Frontends (lookup_app (syncApps [two_taskA] [bogus2_app]) ''/web'') =
     Some [\<lparr>Type = ''error'', Data = [''frontend bogus not recognized'']\<rparr>]"
proof (intro conjI impI)
  assume h: "syncApps tasks apps = Inr m \<and> m appid = Some a \<and>
    contributors appid apps tasks = (app0, t0) # ps \<and>
    AppLabels app0 ''frontends'' = Some label \<and>
    spaceRegexp_Split label = pre @ tok # post \<and>
    length (pre @ tok # post) \<le> length (Tasks a) \<and>
    (\<forall>f \<in> set pre. frontendRegexp_MatchString f) \<and>
    \<not> frontendRegexp_MatchString tok"
  then have r: "syncApps tasks apps = Inr m" and a: "m appid = Some a"
    and c: "contributors appid apps tasks = (app0, t0) # ps" by simp_all
  from syncApps_created [OF r a] c have cr: "created app0 t0 (map snd ps) a" by simp
  then have len: "length (Tasks a) = length (Ports t0)"
    and pf: "parse_frontends (AppLabels app0) (length (Ports t0)) = Inr (Frontends a)"
    by (simp_all add: created_def)
  from h have fl: "frontends_loop (pre @ tok # post) [] =
      Inr [\<lparr>Type = ''error'', Data = [''frontend '' @ tok @ '' not recognized'']\<rparr>]"
    by (intro frontends_loop_first_bad) simp_all
  from h len have "parse_frontends (AppLabels app0) (length (Ports t0)) = frontends_loop (pre @ tok # post) []"
    by (simp add: parse_frontends_def Let_def)
  with pf fl show "Frontends a = [\<lparr>Type = ''error'', Data = [''frontend '' @ tok @ '' not recognized'']\<rparr>]"
    by simp
next
  show "map_option Frontends (lookup_app (syncApps [two_taskA] [bogus_app]) ''/web'') =
     Some [\<lparr>Type = ''error'', Data = [''frontend GOOD.com/http not recognized'']\<rparr>]"
    by (simp add: syncApps_bogus lookup_app_def)
next
  show "map_option Frontends (lookup_app (syncApps [two_taskA] [bogus2_app]) ''/web'') =
     Some [\<lparr>Type = ''error'', Data = [''frontend bogus not recognized'']\<rparr>]"
    by (simp add: syncApps_bogus2 lookup_app_def)
qed

text \<open>
  The theorem at the label \<open>good/http bogus\<close> on a task with two ports: the first token
  matches, the second does not.
\<close>

theorem syncApps_first_malformed_frontend_witness:
  "syncApps [two_taskA] [bogus2_app] =
     Inr [''/web'' \<mapsto>
       \<lparr>Tasks = [[''hostA:31001''], [''hostA:31002'']],
        Frontends = [\<lparr>Type = ''error'', Data = [''frontend bogus not recognized'']\<rparr>],
        Labels = [''frontends'' \<mapsto> ''good/http bogus''],
        Env = Map.empty\<rparr>] \<and>
   contributors ''/web'' [bogus2_app] [two_taskA] = [(bogus2_app, two_taskA)] \<and>
   AppLabels bogus2_app ''frontends'' = Some ''good/http bogus'' \<and>
   spaceRegexp_Split ''good/http bogus'' = [''good/http''] @ ''bogus'' # [] \<and>
   frontendRegexp_MatchString ''good/http'' \<and> \<not> frontendRegexp_MatchString ''bogus'' \<and>
   [\<lparr>Type = ''error'', Data = [''frontend bogus not recognized'']\<rparr>] =
     [\<lparr>Type = ''error'', Data = [''frontend '' @ ''bogus'' @ '' not recognized'']\<rparr>]"
proof -
  let ?a = "\<lparr>Tasks = [[''hostA:31001''], [''hostA:31002'']],
        Frontends = [\<lparr>Type = ''error'', Data = [''frontend bogus not recognized'']\<rparr>],
        Labels = [''frontends'' \<mapsto> ''good/http bogus''],
        Env = Map.empty\<rparr>"
  have e: "[''/web'' \<mapsto> ?a] ''/web'' = Some ?a" by simp
  have l: "AppLabels bogus2_app ''frontends'' = Some ''good/http bogus''"
    by (simp add: fixture_defs)
  have s: "spaceRegexp_Split ''good/http bogus'' = [''good/http''] @ ''bogus'' # []"
    by (simp add: split_bogus2)
  have n: "length ([''good/http''] @ ''bogus'' # []) \<le> length (Tasks ?a)" by simp
  have p: "\<forall>f \<in> set [''good/http'']. frontendRegexp_MatchString f"
    by (simp add: match_good)
  have "syncApps [two_taskA] [bogus2_app] = Inr [''/web'' \<mapsto> ?a] \<and>
        [''/web'' \<mapsto> ?a] ''/web'' = Some ?a \<and>
        contributors ''/web'' [bogus2_app] [two_taskA] = (bogus2_app, two_taskA) # [] \<and>
        AppLabels bogus2_app ''frontends'' = Some ''good/http bogus'' \<and>
        spaceRegexp_Split ''good/http bogus'' = [''good/http''] @ ''bogus'' # [] \<and>
        length ([''good/http''] @ ''bogus'' # []) \<le> length (Tasks ?a) \<and>
        (\<forall>f \<in> set [''good/http'']. frontendRegexp_MatchString f) \<and>
        \<not> frontendRegexp_MatchString ''bogus''"
    using syncApps_bogus2 e contributors_bogus2 l s n p nomatch_bogus by blast
  with syncApps_first_malformed_frontend
         [of "[two_taskA]" "[bogus2_app]" "[''/web'' \<mapsto> ?a]" "''/web''" ?a bogus2_app two_taskA "[]"
             "''good/http bogus''" "[''good/http'']" "''bogus''" "[]"]
  have "Frontends ?a = [\<lparr>Type = ''error'', Data = [''frontend '' @ ''bogus'' @ '' not recognized'']\<rparr>]"
    by blast
  then have "[\<lparr>Type = ''error'', Data = [''frontend bogus not recognized'']\<rparr>] =
     [\<lparr>Type = ''error'', Data = [''frontend '' @ ''bogus'' @ '' not recognized'']\<rparr>]"
    by simp
  with syncApps_bogus2 contributors_bogus2 l s match_good nomatch_bogus show ?thesis by blast
qed

text \<open>
  Claim C7 as stated fails in its instance: for the label \<open>GOOD.com/http bogus\<close> the
  frontends are not \<open>[{type:"error", data:["frontend bogus not recognized"]}]\<close>.
\<close>

theorem syncApps_first_malformed_frontend_counterexample:
  "length (spaceRegexp_Split ''GOOD.com/http bogus'') \<le> length (Ports two_taskA) \<and>
   map_option Frontends (lookup_app (syncApps [two_taskA] [bogus_app]) ''/web'')
     \<noteq> Some [\<lparr>Type = ''error'', Data = [''frontend bogus not recognized'']\<rparr>]"
proof -
  have "length (spaceRegexp_Split ''GOOD.com/http bogus'') \<le> length (Ports two_taskA)"
    by (simp add: split_bogus fixture_defs)
  then show ?thesis by (simp add: syncApps_bogus lookup_app_def)
qed

text \<open>
  Claim C10. The append at lines 527 to 530 indexes the slots of the entry with the port
  index of the task. When every contributing task of every app exposes as many ports as the
  first contributing task of that app, every index is in range and \<open>syncApps\<close> returns a
  map. When a later contributing task of an app exposes more ports than the first one, an
  index is out of range and \<open>syncApps\<close> panics.
\<close>

theorem syncApps_index_in_range:
  "(uniform_ports tasks apps \<longrightarrow> (\<exists>m. syncApps tasks apps = Inr m)) \<and>
   (contributors appid apps tasks = (app0, t0) # ps \<and> (app, t) \<in> set ps \<and>
    length (Ports t0) < length (Ports t) \<longrightarrow>
      syncApps tasks apps = Inl IndexOutOfRange)"
  using syncApps_total [of tasks apps] syncApps_more_ports [of appid apps tasks app0 t0 ps app t]
  by blast

text \<open>
  The theorem at two inputs: two tasks with one port each, and a task with two ports
  followed by a task with three.
\<close>

theorem syncApps_index_in_range_witness:
  "uniform_ports [web_taskA, web_taskB] [web_app] \<and>
   (\<exists>m. syncApps [web_taskA, web_taskB] [web_app] = Inr m) \<and>
   contributors ''/web'' [plain_app] [two_taskA, three_taskB] =
     (plain_app, two_taskA) # [(plain_app, three_taskB)] \<and>
   length (Ports two_taskA) < length (Ports three_taskB) \<and>
   syncApps [two_taskA, three_taskB] [plain_app] = Inl IndexOutOfRange"
proof -
  have l: "length (Ports two_taskA) < length (Ports three_taskB)"
    by (simp add: fixture_defs)
  have c: "contributors ''/web'' [plain_app] [two_taskA, three_taskB] =
     (plain_app, two_taskA) # [(plain_app, three_taskB)]"
    by (simp add: contributors_more)
  have i: "(plain_app, three_taskB) \<in> set [(plain_app, three_taskB)]" by simp
  from syncApps_index_in_range [where tasks = "[web_taskA, web_taskB]" and apps = "[web_app]"] uniform_web
  have 1: "\<exists>m. syncApps [web_taskA, web_taskB] [web_app] = Inr m" by blast
  from syncApps_index_in_range
         [where appid = "''/web''" and apps = "[plain_app]" and tasks = "[two_taskA, three_taskB]"
            and ?app0.0 = plain_app and ?t0.0 = two_taskA and ps = "[(plain_app, three_taskB)]"
            and app = plain_app and t = three_taskB] c i l
  have 2: "syncApps [two_taskA, three_taskB] [plain_app] = Inl IndexOutOfRange" by blast
  from uniform_web 1 c l 2 show ?thesis by blast
qed

section \<open>Properties of the reload pipeline\<close>

subsection \<open>fetchApps\<close>

lemma first_healthy_none:
  "\<forall>es \<in> set ess. Healthy es = False \<Longrightarrow> first_healthy ess endpoint = endpoint"
  by (induction ess) auto

text \<open>
  Claim C9, amended. When no endpoint is marked healthy, \<open>fetchApps\<close> returns the error
  \<open>all endpoints are down\<close> and no event happened: no request was sent. When an
  endpoint was selected, the events of the call end with the receives from both channels,
  so both sub-requests have sent their result before \<open>fetchApps\<close> returns; it returns the
  error of the apps sub-request when that failed, also when the tasks sub-request failed
  too, the error of the tasks sub-request when only that failed, and both decoded values
  when none failed.
\<close>

theorem fetchApps_result:
  "((\<forall>es \<in> set (health_Endpoints w). Healthy es = False) \<longrightarrow>
      fetchApps env w = (Inl (Error ''all endpoints are down''), [])) \<and>
   (first_healthy (health_Endpoints w) [] = endpoint \<and> endpoint \<noteq> [] \<longrightarrow>
      (\<exists>requests. snd (fetchApps env w) = requests @ [ChanRecv ''appschn'', ChanRecv ''taskschn'']) \<and>
      (\<forall>appserr. apps_result env endpoint = Inl appserr \<longrightarrow>
         fst (fetchApps env w) = Inl appserr) \<and>
      (\<forall>jsonapps taskserr.
         apps_result env endpoint = Inr jsonapps \<and> tasks_result env endpoint = Inl taskserr \<longrightarrow>
         fst (fetchApps env w) = Inl taskserr) \<and>
      (\<forall>jsonapps jsontasks.
         apps_result env endpoint = Inr jsonapps \<and> tasks_result env endpoint = Inr jsontasks \<longrightarrow>
         fst (fetchApps env w) = Inr (jsontasks, jsonapps)))"
proof (intro conjI impI)
  assume "\<forall>es \<in> set (health_Endpoints w). Healthy es = False"
  then have "first_healthy (health_Endpoints w) [] = []" by (rule first_healthy_none)
  then show "fetchApps env w = (Inl (Error ''all endpoints are down''), [])"
    by (simp add: fetchApps_def)
next
  assume e: "first_healthy (health_Endpoints w) [] = endpoint \<and> endpoint \<noteq> []"
  then show "\<exists>requests. snd (fetchApps env w) = requests @ [ChanRecv ''appschn'', ChanRecv ''taskschn'']"
    by (auto simp: fetchApps_def Let_def split: prod.splits sum.splits)
next
  assume e: "first_healthy (health_Endpoints w) [] = endpoint \<and> endpoint \<noteq> []"
  then show "\<forall>appserr. apps_result env endpoint = Inl appserr \<longrightarrow> fst (fetchApps env w) = Inl appserr"
    by (auto simp: fetchApps_def apps_result_def Let_def split: prod.splits sum.splits)
next
  assume e: "first_healthy (health_Endpoints w) [] = endpoint \<and> endpoint \<noteq> []"
  then show "\<forall>jsonapps taskserr.
         apps_result env endpoint = Inr jsonapps \<and> tasks_result env endpoint = Inl taskserr \<longrightarrow>
         fst (fetchApps env w) = Inl taskserr"
    by (auto simp: fetchApps_def apps_result_def tasks_result_def Let_def split: prod.splits sum.splits)
next
  assume e: "first_healthy (health_Endpoints w) [] = endpoint \<and> endpoint \<noteq> []"
  then show "\<forall>jsonapps jsontasks.
         apps_result env endpoint = Inr jsonapps \<and> tasks_result env endpoint = Inr jsontasks \<longrightarrow>
         fst (fetchApps env w) = Inr (jsontasks, jsonapps)"
    by (auto simp: fetchApps_def apps_result_def tasks_result_def Let_def split: prod.splits sum.splits)
qed

lemma first_healthy_base: "first_healthy (health_Endpoints base_world) [] = ''http://m2:8080''"
  by (simp add: base_world_def)

text \<open>
  The theorem where both endpoints are down, and where the second endpoint is healthy and
  both sub-requests fail.
\<close>

theorem fetchApps_result_witness:
  "fetchApps both_fail_env all_down_world = (Inl (Error ''all endpoints are down''), []) \<and>
   first_healthy (health_Endpoints base_world) [] = ''http://m2:8080'' \<and>
   apps_result both_fail_env ''http://m2:8080'' = Inl (Error ''apps: unexpected EOF'') \<and>
   tasks_result both_fail_env ''http://m2:8080'' = Inl (Error ''tasks: connection refused'') \<and>
   fst (fetchApps both_fail_env base_world) = Inl (Error ''apps: unexpected EOF'')"
proof -
  have d: "\<forall>es \<in> set (health_Endpoints all_down_world). Healthy es = False"
    by (simp add: all_down_world_def)
  have a: "apps_result both_fail_env ''http://m2:8080'' = Inl (Error ''apps: unexpected EOF'')"
    by (simp add: apps_result_def both_fail_env_def base_env_def sub_request_def)
  have t: "tasks_result both_fail_env ''http://m2:8080'' = Inl (Error ''tasks: connection refused'')"
    by (simp add: tasks_result_def both_fail_env_def base_env_def sub_request_def)
  from fetchApps_result [where w = all_down_world and env = both_fail_env] d
  have 1: "fetchApps both_fail_env all_down_world = (Inl (Error ''all endpoints are down''), [])"
    by blast
  from fetchApps_result [where w = base_world and env = both_fail_env and endpoint = "''http://m2:8080''"]
    first_healthy_base a
  have 2: "fst (fetchApps both_fail_env base_world) = Inl (Error ''apps: unexpected EOF'')"
    by simp
  from 1 2 a t first_healthy_base show ?thesis by blast
qed

text \<open>
  Claim C9 as stated fails: when both sub-requests fail, \<open>fetchApps\<close> returns the error
  of the apps sub-request, not that of the tasks sub-request.
\<close>

theorem fetchApps_result_counterexample:
  "tasks_result both_fail_env ''http://m2:8080'' = Inl (Error ''tasks: connection refused'') \<and>
   apps_result both_fail_env ''http://m2:8080'' = Inl (Error ''apps: unexpected EOF'') \<and>
   fst (fetchApps both_fail_env base_world) \<noteq> Inl (Error ''tasks: connection refused'') \<and>
   fst (fetchApps both_fail_env base_world) = Inl (Error ''apps: unexpected EOF'')"
  by (simp add: fetchApps_def first_healthy_base tasks_result_def apps_result_def
        both_fail_env_def base_env_def sub_request_def)

subsection \<open>The stamps\<close>

lemmas stamp_defs = stamp_sync_def stamp_rendered_def stamp_valid_def stamp_reload_def
  time_Now_def set_Apps_def

lemmas writeConf_defs = writeConf_def TempFile_def check_and_install_def checkConf_def
  os_Rename_def

lemma writeConf_stamps:
  assumes "writeConf env w = (r, w')"
  shows "case r of
           Done \<Rightarrow>
             LastUpdates (config w') = (LastUpdates (config w))\<lparr>LastConfigRendered := Now env (clock_calls w)\<rparr> \<and>
             clock_calls w' = Suc (clock_calls w)
         | Failed k e \<Rightarrow>
             (k = Render \<and> LastUpdates (config w') = LastUpdates (config w) \<and> clock_calls w' = clock_calls w) \<or>
             ((k = Validate \<or> k = Install) \<and>
              LastUpdates (config w') = (LastUpdates (config w))\<lparr>LastConfigRendered := Now env (clock_calls w)\<rparr> \<and>
              clock_calls w' = Suc (clock_calls w))
         | Panicked p \<Rightarrow> True"
  using assms unfolding writeConf_defs stamp_defs
  by (auto simp: Let_def split: sum.splits prod.splits executed.splits option.splits if_splits)

lemma reloadNginx_frame:
  "reloadNginx env w = (e, w') \<Longrightarrow>
     config w' = config w \<and> clock_calls w' = clock_calls w \<and> files w' = files w"
  by (auto simp: reloadNginx_def Let_def)

lemma stamp_sync_frame:
  "LastUpdates (config (stamp_sync env (set_Apps m w))) =
     (LastUpdates (config w))\<lparr>LastSync := Now env (clock_calls w)\<rparr> \<and>
   clock_calls (stamp_sync env (set_Apps m w)) = Suc (clock_calls w)"
  by (simp add: stamp_defs)

lemma stamp_valid_frame:
  "LastUpdates (config (stamp_valid env w)) =
     (LastUpdates (config w))\<lparr>LastConfigValid := Now env (clock_calls w)\<rparr> \<and>
   clock_calls (stamp_valid env w) = Suc (clock_calls w)"
  by (simp add: stamp_defs)

lemma stamp_reload_frame:
  "LastUpdates (config (stamp_reload env w)) =
     (LastUpdates (config w))\<lparr>LastNginxReload := Now env (clock_calls w)\<rparr>"
  by (simp add: stamp_defs)

lemma reload_cases:
  assumes "reload env w = (r, w')"
  obtains
    (fetch_fails) e events where "fetchApps env w = (Inl e, events)" "r = Failed Fetch e"
      "w' = w\<lparr>trace := trace w @ events\<rparr>"
  | (sync_panics) jsontasks jsonapps events p where "fetchApps env w = (Inr (jsontasks, jsonapps), events)"
      "syncApps jsontasks jsonapps = Inl p" "r = Panicked p"
  | (write_ends) jsontasks jsonapps events m where "fetchApps env w = (Inr (jsontasks, jsonapps), events)"
      "syncApps jsontasks jsonapps = Inr m"
      "writeConf env (stamp_sync env (set_Apps m (w\<lparr>trace := trace w @ events\<rparr>))) = (r, w')"
      "r \<noteq> Done"
  | (signal_fails) jsontasks jsonapps events m w2 e where "fetchApps env w = (Inr (jsontasks, jsonapps), events)"
      "syncApps jsontasks jsonapps = Inr m"
      "writeConf env (stamp_sync env (set_Apps m (w\<lparr>trace := trace w @ events\<rparr>))) = (Done, w2)"
      "reloadNginx env (stamp_valid env w2) = (Some e, w')" "r = Failed Signal e"
  | (all_done) jsontasks jsonapps events m w2 w3 where "fetchApps env w = (Inr (jsontasks, jsonapps), events)"
      "syncApps jsontasks jsonapps = Inr m"
      "writeConf env (stamp_sync env (set_Apps m (w\<lparr>trace := trace w @ events\<rparr>))) = (Done, w2)"
      "reloadNginx env (stamp_valid env w2) = (None, w3)" "r = Done" "w' = stamp_reload env w3"
  using assms unfolding reload_def
  by (auto simp: Let_def split: prod.splits sum.splits outcome.splits option.splits)

text \<open>
  Claim C2, amended. For one reload attempt, with \<open>n\<close> the number of earlier calls of
  \<open>time.Now\<close>: when it succeeds, the four stamps are the four readings of the clock taken
  in the order \<open>LastSync\<close>, \<open>LastConfigRendered\<close>, \<open>LastConfigValid\<close>,
  \<open>LastNginxReload\<close>, so with a strictly increasing clock they are ordered strictly. When
  it fails at the fetch, no stamp changes; at the render, only \<open>LastSync\<close> is set; at the
  validation, \<open>LastSync\<close> and \<open>LastConfigRendered\<close> are set; at the rename the same two
  are set and \<open>LastConfigValid\<close> is unchanged, because it is stamped after \<open>writeConf\<close>
  has returned; at the reload signal the first three are set and \<open>LastNginxReload\<close> is
  unchanged.
\<close>

theorem reload_stamps:
  assumes "reload env w = (r, w')"
  shows "(r = Done \<longrightarrow>
            LastUpdates (config w') =
              \<lparr>LastSync = Now env (clock_calls w),
               LastConfigRendered = Now env (clock_calls w + 1),
               LastConfigValid = Now env (clock_calls w + 2),
               LastNginxReload = Now env (clock_calls w + 3)\<rparr>) \<and>
         (\<forall>e. r = Failed Fetch e \<longrightarrow> LastUpdates (config w') = LastUpdates (config w)) \<and>
         (\<forall>e. r = Failed Render e \<longrightarrow>
            LastUpdates (config w') =
              (LastUpdates (config w))\<lparr>LastSync := Now env (clock_calls w)\<rparr>) \<and>
         (\<forall>e. r = Failed Validate e \<or> r = Failed Install e \<longrightarrow>
            LastUpdates (config w') =
              (LastUpdates (config w))\<lparr>LastSync := Now env (clock_calls w),
                 LastConfigRendered := Now env (clock_calls w + 1)\<rparr>) \<and>
         (\<forall>e. r = Failed Signal e \<longrightarrow>
            LastUpdates (config w') =
              (LastUpdates (config w))\<lparr>LastSync := Now env (clock_calls w),
                 LastConfigRendered := Now env (clock_calls w + 1),
                 LastConfigValid := Now env (clock_calls w + 2)\<rparr>) \<and>
         (r = Done \<and> strict_mono (Now env) \<longrightarrow>
            LastSync (LastUpdates (config w')) < LastConfigRendered (LastUpdates (config w')) \<and>
            LastConfigRendered (LastUpdates (config w')) < LastConfigValid (LastUpdates (config w')) \<and>
            LastConfigValid (LastUpdates (config w')) < LastNginxReload (LastUpdates (config w')))"
  using assms
proof (cases rule: reload_cases)
  case (fetch_fails e events)
  then show ?thesis by simp
next
  case (sync_panics jsontasks jsonapps events p)
  then show ?thesis by simp
next
  case (write_ends jsontasks jsonapps events m)
  let ?w1 = "stamp_sync env (set_Apps m (w\<lparr>trace := trace w @ events\<rparr>))"
  have s: "LastUpdates (config ?w1) = (LastUpdates (config w))\<lparr>LastSync := Now env (clock_calls w)\<rparr>"
    and c: "clock_calls ?w1 = Suc (clock_calls w)"
    using stamp_sync_frame [of env m "w\<lparr>trace := trace w @ events\<rparr>"] by simp_all
  from writeConf_stamps [OF write_ends(3)] write_ends(4) s c show ?thesis
    by (cases r) auto
next
  case (signal_fails jsontasks jsonapps events m w2 e)
  let ?w1 = "stamp_sync env (set_Apps m (w\<lparr>trace := trace w @ events\<rparr>))"
  have s: "LastUpdates (config ?w1) = (LastUpdates (config w))\<lparr>LastSync := Now env (clock_calls w)\<rparr>"
    and c: "clock_calls ?w1 = Suc (clock_calls w)"
    using stamp_sync_frame [of env m "w\<lparr>trace := trace w @ events\<rparr>"] by simp_all
  from writeConf_stamps [OF signal_fails(3)] s c
  have w2: "LastUpdates (config w2) = (LastUpdates (config w))\<lparr>LastSync := Now env (clock_calls w),
                 LastConfigRendered := Now env (clock_calls w + 1)\<rparr>"
    and c2: "clock_calls w2 = clock_calls w + 2" by simp_all
  from reloadNginx_frame [OF signal_fails(4)] stamp_valid_frame [of env w2] w2 c2 signal_fails(5)
  show ?thesis by simp
next
  case (all_done jsontasks jsonapps events m w2 w3)
  let ?w1 = "stamp_sync env (set_Apps m (w\<lparr>trace := trace w @ events\<rparr>))"
  have s: "LastUpdates (config ?w1) = (LastUpdates (config w))\<lparr>LastSync := Now env (clock_calls w)\<rparr>"
    and c: "clock_calls ?w1 = Suc (clock_calls w)"
    using stamp_sync_frame [of env m "w\<lparr>trace := trace w @ events\<rparr>"] by simp_all
  from writeConf_stamps [OF all_done(3)] s c
  have w2: "LastUpdates (config w2) = (LastUpdates (config w))\<lparr>LastSync := Now env (clock_calls w),
                 LastConfigRendered := Now env (clock_calls w + 1)\<rparr>"
    and c2: "clock_calls w2 = clock_calls w + 2" by simp_all
  from reloadNginx_frame [OF all_done(4)] stamp_valid_frame [of env w2] w2 c2
  have w3: "LastUpdates (config w3) = (LastUpdates (config w))\<lparr>LastSync := Now env (clock_calls w),
                 LastConfigRendered := Now env (clock_calls w + 1),
                 LastConfigValid := Now env (clock_calls w + 2)\<rparr>"
    and c3: "clock_calls w3 = clock_calls w + 3" by simp_all
  from stamp_reload_frame [of env w3] w3 c3 all_done(6)
  have u: "LastUpdates (config w') =
              \<lparr>LastSync = Now env (clock_calls w),
               LastConfigRendered = Now env (clock_calls w + 1),
               LastConfigValid = Now env (clock_calls w + 2),
               LastNginxReload = Now env (clock_calls w + 3)\<rparr>"
    by simp
  with all_done(5) show ?thesis by (simp add: strict_mono_def)
qed

subsection \<open>reload on the concrete surroundings\<close>

lemmas reload_eval = reload_def fetchApps_def sub_request_def syncApps_dotless writeConf_defs
  reloadNginx_def run_error_def stamp_defs Let_def

lemmas surroundings_defs = base_env_def base_world_def rename_fail_env_def invalid_conf_env_def
  signal_fail_env_def

lemma reload_base_outcome: "fst (reload base_env base_world) = Done"
  by (simp add: reload_eval surroundings_defs)

lemma reload_base_stamps:
  "LastUpdates (config (snd (reload base_env base_world))) =
     \<lparr>LastSync = 1000, LastConfigRendered = 1001, LastConfigValid = 1002, LastNginxReload = 1003\<rparr>"
  by (simp add: reload_eval surroundings_defs)

lemma reload_base_trace:
  "trace (snd (reload base_env base_world)) =
     [HttpGet ''http://m2:8080/v2/tasks'', HttpGet ''http://m2:8080/v2/apps'',
      ChanRecv ''appschn'', ChanRecv ''taskschn'',
      Run ''nginx'' [''-c'', ''/tmp/nixy123456789'', ''-t''],
      Rename ''/tmp/nixy123456789'' ''/etc/nginx/nginx.conf'',
      Run ''nginx'' [''-s'', ''reload'']]"
  by (simp add: reload_eval surroundings_defs)

lemma reload_rename_fail_outcome:
  "fst (reload rename_fail_env base_world) = Failed Install (Error ''invalid cross-device link'')"
  by (simp add: reload_eval surroundings_defs)

lemma reload_rename_fail_stamps:
  "LastUpdates (config (snd (reload rename_fail_env base_world))) =
     \<lparr>LastSync = 1000, LastConfigRendered = 1001, LastConfigValid = 30, LastNginxReload = 40\<rparr>"
  by (simp add: reload_eval surroundings_defs)

lemma reload_invalid_outcome:
  "fst (reload invalid_conf_env base_world) =
     Failed Validate (Error ''exit status 1: nginx: [emerg] unexpected end of file'')"
  by (simp add: reload_eval surroundings_defs digits10.simps digit_char_def)

lemma reload_invalid_stamps:
  "LastUpdates (config (snd (reload invalid_conf_env base_world))) =
     \<lparr>LastSync = 1000, LastConfigRendered = 1001, LastConfigValid = 30, LastNginxReload = 40\<rparr>"
  by (simp add: reload_eval surroundings_defs)

lemma reload_invalid_file:
  "files (snd (reload invalid_conf_env base_world)) ''/etc/nginx/nginx.conf'' = Some ''# old''"
  by (simp add: reload_eval surroundings_defs)

lemma reload_signal_fail_outcome:
  "fst (reload signal_fail_env base_world) =
     Failed Signal (Error ''exit status 1: nginx: [error] invalid PID number'')"
  by (simp add: reload_eval surroundings_defs digits10.simps digit_char_def)

lemma reload_signal_fail_file:
  "files (snd (reload signal_fail_env base_world)) ''/etc/nginx/nginx.conf'' = Some ''# rendered: upstream''"
  by (simp add: reload_eval surroundings_defs)

lemma base_world_simps:
  "clock_calls base_world = 0"
  "LastUpdates (config base_world) =
     \<lparr>LastSync = 10, LastConfigRendered = 20, LastConfigValid = 30, LastNginxReload = 40\<rparr>"
  "Nginx_config (config base_world) = ''/etc/nginx/nginx.conf''"
  "Nginx_cmd (config base_world) = ''nginx''"
  "files base_world ''/etc/nginx/nginx.conf'' = Some ''# old''"
  by (simp_all add: base_world_def)

lemma strict_mono_base: "strict_mono (Now base_env)"
  by (simp add: base_env_def strict_mono_def)

text \<open>
  The theorem at a successful attempt and at an attempt whose candidate fails the
  validation: the clock reads 1000, 1001, 1002, 1003, the old stamps are 10, 20, 30, 40.
\<close>

theorem reload_stamps_witness:
  "fst (reload base_env base_world) = Done \<and> strict_mono (Now base_env) \<and>
   LastUpdates (config (snd (reload base_env base_world))) =
     \<lparr>LastSync = 1000, LastConfigRendered = 1001, LastConfigValid = 1002, LastNginxReload = 1003\<rparr> \<and>
   LastSync (LastUpdates (config (snd (reload base_env base_world))))
     < LastConfigRendered (LastUpdates (config (snd (reload base_env base_world)))) \<and>
   LastConfigRendered (LastUpdates (config (snd (reload base_env base_world))))
     < LastConfigValid (LastUpdates (config (snd (reload base_env base_world)))) \<and>
   LastConfigValid (LastUpdates (config (snd (reload base_env base_world))))
     < LastNginxReload (LastUpdates (config (snd (reload base_env base_world)))) \<and>
   fst (reload invalid_conf_env base_world) =
     Failed Validate (Error ''exit status 1: nginx: [emerg] unexpected end of file'') \<and>
   LastUpdates (config (snd (reload invalid_conf_env base_world))) =
     \<lparr>LastSync = 1000, LastConfigRendered = 1001, LastConfigValid = 30, LastNginxReload = 40\<rparr>"
proof -
  have b: "reload base_env base_world = (fst (reload base_env base_world), snd (reload base_env base_world))"
    by simp
  have i: "reload invalid_conf_env base_world =
      (fst (reload invalid_conf_env base_world), snd (reload invalid_conf_env base_world))"
    by simp
  have n: "Now base_env 0 = 1000" "Now base_env 1 = 1001" "Now base_env 2 = 1002" "Now base_env 3 = 1003"
    "Now invalid_conf_env 0 = 1000" "Now invalid_conf_env 1 = 1001"
    by (simp_all add: surroundings_defs)
  from reload_stamps [OF b] reload_base_outcome strict_mono_base
  have 1: "LastUpdates (config (snd (reload base_env base_world))) =
              \<lparr>LastSync = Now base_env (clock_calls base_world),
               LastConfigRendered = Now base_env (clock_calls base_world + 1),
               LastConfigValid = Now base_env (clock_calls base_world + 2),
               LastNginxReload = Now base_env (clock_calls base_world + 3)\<rparr>"
    and 2: "LastSync (LastUpdates (config (snd (reload base_env base_world))))
     < LastConfigRendered (LastUpdates (config (snd (reload base_env base_world)))) \<and>
   LastConfigRendered (LastUpdates (config (snd (reload base_env base_world))))
     < LastConfigValid (LastUpdates (config (snd (reload base_env base_world)))) \<and>
   LastConfigValid (LastUpdates (config (snd (reload base_env base_world))))
     < LastNginxReload (LastUpdates (config (snd (reload base_env base_world))))"
    by blast+
  from reload_stamps [OF i] reload_invalid_outcome
  have 3: "LastUpdates (config (snd (reload invalid_conf_env base_world))) =
              (LastUpdates (config base_world))\<lparr>LastSync := Now invalid_conf_env (clock_calls base_world),
                 LastConfigRendered := Now invalid_conf_env (clock_calls base_world + 1)\<rparr>"
    by blast
  from 1 2 3 n reload_base_outcome reload_invalid_outcome strict_mono_base show ?thesis
    by (simp add: base_world_simps)
qed

text \<open>
  Claim C2 as stated fails at the rename: the validation has completed (the command exits
  with status 0) and the rename fails, but \<open>LastConfigValid\<close> keeps its old value 30.
\<close>

theorem reload_stamps_counterexample:
  "fst (reload rename_fail_env base_world) = Failed Install (Error ''invalid cross-device link'') \<and>
   run_error (cmd_Run rename_fail_env ''nginx'' [''-c'', ''/tmp/nixy123456789'', ''-t''] (files base_world)) = None \<and>
   LastConfigValid (LastUpdates (config base_world)) = 30 \<and>
   LastConfigRendered (LastUpdates (config (snd (reload rename_fail_env base_world)))) = 1001 \<and>
   LastConfigValid (LastUpdates (config (snd (reload rename_fail_env base_world)))) = 30"
proof -
  have "run_error (cmd_Run rename_fail_env ''nginx'' [''-c'', ''/tmp/nixy123456789'', ''-t''] (files base_world)) = None"
    by (simp add: run_error_def rename_fail_env_def base_env_def)
  then show ?thesis
    by (simp add: reload_rename_fail_outcome reload_rename_fail_stamps base_world_simps)
qed

subsection \<open>The configuration file\<close>

lemma stamp_frame:
  "files (stamp_sync env w) = files w" "trace (stamp_sync env w) = trace w"
  "files (stamp_rendered env w) = files w" "trace (stamp_rendered env w) = trace w"
  "files (stamp_valid env w) = files w" "trace (stamp_valid env w) = trace w"
  "files (stamp_reload env w) = files w" "trace (stamp_reload env w) = trace w"
  "files (set_Apps m w) = files w" "trace (set_Apps m w) = trace w"
  "Nginx_config (config (stamp_sync env w)) = Nginx_config (config w)"
  "Nginx_config (config (stamp_rendered env w)) = Nginx_config (config w)"
  "Nginx_config (config (stamp_valid env w)) = Nginx_config (config w)"
  "Nginx_config (config (set_Apps m w)) = Nginx_config (config w)"
  "Nginx_cmd (config (stamp_sync env w)) = Nginx_cmd (config w)"
  "Nginx_cmd (config (stamp_rendered env w)) = Nginx_cmd (config w)"
  "Nginx_cmd (config (stamp_valid env w)) = Nginx_cmd (config w)"
  "Nginx_cmd (config (set_Apps m w)) = Nginx_cmd (config w)"
  by (simp_all add: stamp_defs)

lemma run_error_None: "(run_error r = None) = (\<exists>stderr. r = Exited 0 stderr)"
  by (cases r) (auto simp: run_error_def)

lemma check_and_install_files:
  assumes "check_and_install env name w = (r, w')" and "name \<noteq> Nginx_config (config w)"
  shows "config w' = config w \<and>
         (r \<noteq> Done \<longrightarrow> files w' = files w) \<and>
         (r = Done \<longrightarrow>
            (\<exists>stderr. cmd_Run env (Nginx_cmd (config w)) [''-c'', name, ''-t''] (files w) = Exited 0 stderr) \<and>
            files w' (Nginx_config (config w)) = files w name \<and>
            trace w' = trace w @ [Run (Nginx_cmd (config w)) [''-c'', name, ''-t''],
                                  Rename name (Nginx_config (config w))])"
  using assms unfolding check_and_install_def checkConf_def os_Rename_def
  by (auto simp: Let_def run_error_None split: option.splits prod.splits if_splits)

lemma writeConf_files:
  assumes "writeConf env w = (r, w')" and "files w (Nginx_config (config w)) = Some old"
  shows "Nginx_config (config w') = Nginx_config (config w) \<and>
         Nginx_cmd (config w') = Nginx_cmd (config w) \<and>
         (r \<noteq> Done \<longrightarrow> files w' (Nginx_config (config w)) = Some old) \<and>
         (r = Done \<longrightarrow>
            (\<exists>name fs stderr written.
               cmd_Run env (Nginx_cmd (config w)) [''-c'', name, ''-t''] fs = Exited 0 stderr \<and>
               fs name = Some written \<and>
               files w' (Nginx_config (config w)) = Some written \<and>
               trace w' = trace w @ [Run (Nginx_cmd (config w)) [''-c'', name, ''-t''],
                                     Rename name (Nginx_config (config w))]))"
proof (cases "ParseFiles env (files w (Nginx_template (config w)))")
  case (Inl err)
  with assms show ?thesis by (auto simp: writeConf_def)
next
  case (Inr template)
  show ?thesis
  proof (cases "TempFile env [] ''nixy'' (files w)")
    case (Pair t fs)
    show ?thesis
    proof (cases t)
      case (Inl tmperr)
      with assms Inr Pair show ?thesis
        by (auto simp: writeConf_def stamp_frame stamp_defs split: executed.splits if_splits)
    next
      case name: (Inr name)
      with Pair have fs: "fs = (files w)(name \<mapsto> [])" and fresh: "files w name = None"
        by (auto simp: TempFile_def Let_def split: option.splits if_splits)
      from fresh assms(2) have ne: "name \<noteq> Nginx_config (config w)" by auto
      show ?thesis
      proof (cases "Execute env template (config w)")
        case (ExecError written err)
        with assms Inr Pair name fs ne show ?thesis
          by (auto simp: writeConf_def)
      next
        case (ExecOk written)
        let ?w1 = "stamp_rendered env (w\<lparr>files := fs(name \<mapsto> written)\<rparr>)"
        from assms(1) Inr Pair name ExecOk
        have ci: "check_and_install env name ?w1 = (r, w')"
          by (simp add: writeConf_def)
        have ne1: "name \<noteq> Nginx_config (config ?w1)"
          using ne by (simp add: stamp_frame)
        from check_and_install_files [OF ci ne1] fs ne assms(2)
        show ?thesis
          by (auto simp: stamp_frame stamp_defs)
      qed
    qed
  qed
qed

text \<open>
  Claim C1, amended. For one reload attempt that starts with a configuration file at
  \<open>nginx_config\<close>: the file is different afterwards only when a temporary file with the
  new contents passed \<open>nginx -c <name> -t\<close> with exit status 0 and was then renamed over
  it, the run coming right before the rename in the events. When the attempt fails at the
  fetch, the render, the validation or the rename, the file has its old contents. When it
  fails at the reload signal, the file has already been replaced by the validated
  candidate.
\<close>

theorem reload_config_file:
  assumes "reload env w = (r, w')" and "files w (Nginx_config (config w)) = Some old"
  shows "(files w' (Nginx_config (config w)) \<noteq> Some old \<longrightarrow>
            (\<exists>name fs stderr before after.
               cmd_Run env (Nginx_cmd (config w)) [''-c'', name, ''-t''] fs = Exited 0 stderr \<and>
               files w' (Nginx_config (config w)) = fs name \<and>
               trace w' = before @ [Run (Nginx_cmd (config w)) [''-c'', name, ''-t''],
                                    Rename name (Nginx_config (config w))] @ after)) \<and>
         (\<forall>k e. r = Failed k e \<and> k \<noteq> Signal \<longrightarrow> files w' (Nginx_config (config w)) = Some old) \<and>
         (\<forall>e. r = Failed Signal e \<longrightarrow>
            (\<exists>name fs stderr.
               cmd_Run env (Nginx_cmd (config w)) [''-c'', name, ''-t''] fs = Exited 0 stderr \<and>
               files w' (Nginx_config (config w)) = fs name \<and> fs name \<noteq> None))"
  using assms(1)
proof (cases rule: reload_cases)
  case (fetch_fails e events)
  with assms(2) show ?thesis by simp
next
  case (sync_panics jsontasks jsonapps events p)
  with assms show ?thesis by (auto simp: reload_def)
next
  case (write_ends jsontasks jsonapps events m)
  let ?w1 = "stamp_sync env (set_Apps m (w\<lparr>trace := trace w @ events\<rparr>))"
  have c: "Nginx_config (config ?w1) = Nginx_config (config w)" and f: "files ?w1 = files w"
    by (simp_all add: stamp_frame)
  from assms(2) c f have old: "files ?w1 (Nginx_config (config ?w1)) = Some old" by simp
  from writeConf_files [OF write_ends(3) old] write_ends(4) c
  have "files w' (Nginx_config (config w)) = Some old" by simp
  moreover from writeConf_stamps [OF write_ends(3)] have "\<forall>e. r \<noteq> Failed Signal e"
    by (auto split: outcome.splits)
  ultimately show ?thesis by simp
next
  case (signal_fails jsontasks jsonapps events m w2 e)
  let ?w1 = "stamp_sync env (set_Apps m (w\<lparr>trace := trace w @ events\<rparr>))"
  have c: "Nginx_config (config ?w1) = Nginx_config (config w)" and f: "files ?w1 = files w"
    and n: "Nginx_cmd (config ?w1) = Nginx_cmd (config w)"
    and t: "trace ?w1 = trace w @ events"
    by (simp_all add: stamp_frame)
  from assms(2) c f have old: "files ?w1 (Nginx_config (config ?w1)) = Some old" by simp
  from writeConf_files [OF signal_fails(3) old] c n t
  obtain name fs stderr written
    where run: "cmd_Run env (Nginx_cmd (config w)) [''-c'', name, ''-t''] fs = Exited 0 stderr"
      and fs: "fs name = Some written"
      and new: "files w2 (Nginx_config (config w)) = Some written"
      and tr: "trace w2 = (trace w @ events) @ [Run (Nginx_cmd (config w)) [''-c'', name, ''-t''],
                                     Rename name (Nginx_config (config w))]"
    by auto
  from signal_fails(4)
  have w': "files w' = files w2"
    and tr': "trace w' = trace w2 @ [Run (Nginx_cmd (config (stamp_valid env w2))) [''-s'', ''reload'']]"
    by (auto simp: reloadNginx_def Let_def stamp_frame)
  have 1: "\<exists>name fs stderr before after.
               cmd_Run env (Nginx_cmd (config w)) [''-c'', name, ''-t''] fs = Exited 0 stderr \<and>
               files w' (Nginx_config (config w)) = fs name \<and>
               trace w' = before @ [Run (Nginx_cmd (config w)) [''-c'', name, ''-t''],
                                    Rename name (Nginx_config (config w))] @ after"
  proof (intro exI conjI)
    show "cmd_Run env (Nginx_cmd (config w)) [''-c'', name, ''-t''] fs = Exited 0 stderr"
      by (rule run)
    show "files w' (Nginx_config (config w)) = fs name"
      using fs new w' by simp
    show "trace w' = (trace w @ events) @ [Run (Nginx_cmd (config w)) [''-c'', name, ''-t''],
                        Rename name (Nginx_config (config w))]
                     @ [Run (Nginx_cmd (config (stamp_valid env w2))) [''-s'', ''reload'']]"
      using tr tr' by simp
  qed
  have 2: "\<exists>name fs stderr.
               cmd_Run env (Nginx_cmd (config w)) [''-c'', name, ''-t''] fs = Exited 0 stderr \<and>
               files w' (Nginx_config (config w)) = fs name \<and> fs name \<noteq> None"
  proof (intro exI conjI)
    show "cmd_Run env (Nginx_cmd (config w)) [''-c'', name, ''-t''] fs = Exited 0 stderr"
      by (rule run)
    show "files w' (Nginx_config (config w)) = fs name"
      using fs new w' by simp
    show "fs name \<noteq> None" using fs by simp
  qed
  from 1 2 signal_fails(5) show ?thesis by simp
next
  case (all_done jsontasks jsonapps events m w2 w3)
  let ?w1 = "stamp_sync env (set_Apps m (w\<lparr>trace := trace w @ events\<rparr>))"
  have c: "Nginx_config (config ?w1) = Nginx_config (config w)" and f: "files ?w1 = files w"
    and n: "Nginx_cmd (config ?w1) = Nginx_cmd (config w)"
    and t: "trace ?w1 = trace w @ events"
    by (simp_all add: stamp_frame)
  from assms(2) c f have old: "files ?w1 (Nginx_config (config ?w1)) = Some old" by simp
  from writeConf_files [OF all_done(3) old] c n t
  obtain name fs stderr written
    where run: "cmd_Run env (Nginx_cmd (config w)) [''-c'', name, ''-t''] fs = Exited 0 stderr"
      and fs: "fs name = Some written"
      and new: "files w2 (Nginx_config (config w)) = Some written"
      and tr: "trace w2 = (trace w @ events) @ [Run (Nginx_cmd (config w)) [''-c'', name, ''-t''],
                                     Rename name (Nginx_config (config w))]"
    by auto
  from all_done(4,6)
  have w': "files w' = files w2"
    and tr': "trace w' = trace w2 @ [Run (Nginx_cmd (config (stamp_valid env w2))) [''-s'', ''reload'']]"
    by (auto simp: reloadNginx_def Let_def stamp_frame)
  have 1: "\<exists>name fs stderr before after.
               cmd_Run env (Nginx_cmd (config w)) [''-c'', name, ''-t''] fs = Exited 0 stderr \<and>
               files w' (Nginx_config (config w)) = fs name \<and>
               trace w' = before @ [Run (Nginx_cmd (config w)) [''-c'', name, ''-t''],
                                    Rename name (Nginx_config (config w))] @ after"
  proof (intro exI conjI)
    show "cmd_Run env (Nginx_cmd (config w)) [''-c'', name, ''-t''] fs = Exited 0 stderr"
      by (rule run)
    show "files w' (Nginx_config (config w)) = fs name"
      using fs new w' by simp
    show "trace w' = (trace w @ events) @ [Run (Nginx_cmd (config w)) [''-c'', name, ''-t''],
                        Rename name (Nginx_config (config w))]
                     @ [Run (Nginx_cmd (config (stamp_valid env w2))) [''-s'', ''reload'']]"
      using tr tr' by simp
  qed
  have 2: "\<exists>name fs stderr.
               cmd_Run env (Nginx_cmd (config w)) [''-c'', name, ''-t''] fs = Exited 0 stderr \<and>
               files w' (Nginx_config (config w)) = fs name \<and> fs name \<noteq> None"
  proof (intro exI conjI)
    show "cmd_Run env (Nginx_cmd (config w)) [''-c'', name, ''-t''] fs = Exited 0 stderr"
      by (rule run)
    show "files w' (Nginx_config (config w)) = fs name"
      using fs new w' by simp
    show "fs name \<noteq> None" using fs by simp
  qed
  from 1 2 all_done(5) show ?thesis by simp
qed

text \<open>
  The theorem at an attempt whose candidate fails the validation: the configuration file
  keeps its old contents.
\<close>

theorem reload_config_file_witness:
  "files base_world (Nginx_config (config base_world)) = Some ''# old'' \<and>
   fst (reload invalid_conf_env base_world) =
     Failed Validate (Error ''exit status 1: nginx: [emerg] unexpected end of file'') \<and>
   Validate \<noteq> Signal \<and>
   files (snd (reload invalid_conf_env base_world)) (Nginx_config (config base_world)) = Some ''# old''"
proof -
  have i: "reload invalid_conf_env base_world =
      (fst (reload invalid_conf_env base_world), snd (reload invalid_conf_env base_world))"
    by simp
  have old: "files base_world (Nginx_config (config base_world)) = Some ''# old''"
    by (simp add: base_world_simps)
  from reload_config_file [OF i old] reload_invalid_outcome
  have "files (snd (reload invalid_conf_env base_world)) (Nginx_config (config base_world)) = Some ''# old''"
    by blast
  with old reload_invalid_outcome show ?thesis by simp
qed

text \<open>
  Claim C1 as stated fails at the reload signal: the candidate was validated and renamed
  over the configuration file, then \<open>nginx -s reload\<close> exits with status 1; the attempt
  has failed and the file no longer has its old contents.
\<close>

theorem reload_config_file_counterexample:
  "files base_world ''/etc/nginx/nginx.conf'' = Some ''# old'' \<and>
   fst (reload signal_fail_env base_world) =
     Failed Signal (Error ''exit status 1: nginx: [error] invalid PID number'') \<and>
   files (snd (reload signal_fail_env base_world)) ''/etc/nginx/nginx.conf'' =
     Some ''# rendered: upstream'' \<and>
   files (snd (reload signal_fail_env base_world)) ''/etc/nginx/nginx.conf'' \<noteq>
     files base_world ''/etc/nginx/nginx.conf''"
  by (simp add: reload_signal_fail_outcome reload_signal_fail_file base_world_simps)

text \<open>
  Claim C8, on the code: \<open>writeConf\<close> asks \<open>ioutil.TempFile\<close> for a file in the default
  directory for temporary files. With that directory \<open>/tmp\<close> and the configuration at
  \<open>/etc/nginx/nginx.conf\<close> the temporary file is \<open>/tmp/nixy123456789\<close>, in the
  directory \<open>/tmp\<close> and not in \<open>/etc/nginx\<close>, and it is this file that the attempt
  renames over the configuration.
\<close>

theorem writeConf_temp_directory:
  "fst (TempFile base_env [] ''nixy'' (files base_world)) = Inr ''/tmp/nixy123456789'' \<and>
   filepath_Dir ''/tmp/nixy123456789'' = ''/tmp'' \<and>
   filepath_Dir (Nginx_config (config base_world)) = ''/etc/nginx'' \<and>
   Rename ''/tmp/nixy123456789'' ''/etc/nginx/nginx.conf'' \<in> set (trace (snd (reload base_env base_world)))"
proof -
  have "fst (TempFile base_env [] ''nixy'' (files base_world)) = Inr ''/tmp/nixy123456789''"
    by (simp add: TempFile_def Let_def base_env_def base_world_def)
  moreover have "filepath_Dir ''/tmp/nixy123456789'' = ''/tmp''"
    by (simp add: filepath_Dir_def)
  moreover have "filepath_Dir (Nginx_config (config base_world)) = ''/etc/nginx''"
    by (simp add: filepath_Dir_def base_world_simps)
  ultimately show ?thesis by (simp add: reload_base_trace)
qed

end
